theory Spec2Isabelle
  imports Complex_Main
begin

section \<open>BART: equation assembly and power iteration\<close>

text \<open>
  A shallow embedding of \<^verbatim>\<open>EquationBase<dim>\<close> (equation_base.cc) and of
  \<^verbatim>\<open>PowerIteration<dim>::eigen_iterations\<close> (power_iteration.cc).

  Conventions of the embedding:
  \<^item> \<^verbatim>\<open>double\<close> is modelled by \<open>real\<close> where it is only computed with (rounding
    is not modelled), and by a type with infinities and NaN where it is compared, in
    the loop condition of \<^verbatim>\<open>eigen_iterations\<close>; console output (\<^verbatim>\<open>pcout\<close>) is left
    out;
  \<^item> \<^verbatim>\<open>unsigned int\<close> counters and indices are \<open>nat\<close>;
  \<^item> \<^verbatim>\<open>AssertThrow\<close> throws in every build mode: a function that can throw returns
    \<open>error + 'a\<close>, with \<open>Inl (ExcMessage m)\<close> the exception;
  \<^item> an index past the end of a \<^verbatim>\<open>std::vector\<close> and a size mismatch of two vectors
    are undefined behaviour in the source: the model stops there with
    \<open>Inl (OutOfRange w)\<close>, \<open>w\<close> naming the container;
  \<^item> a hash table read with \<^verbatim>\<open>operator[]\<close> is a map \<open>'k \<rightharpoonup> 'v\<close>; a key that is
    absent reads as the value-initialised element (\<open>0\<close>, \<open>False\<close>, the empty vector);
  \<^item> the PETSc matrices and vectors are heap objects reached through the pointers
    stored in \<^verbatim>\<open>sys_mats\<close>, \<^verbatim>\<open>sys_aflxes\<close>, \<^verbatim>\<open>sys_rhses\<close> and
    \<^verbatim>\<open>sys_fixed_rhses\<close>: the model keeps an explicit store from addresses to objects;
  \<^item> the virtual integrators and the linear-algebra object are passed as records of
    functions. An integrator reads the cell, the face and data that assembly does not
    change, and writes only the block or vector it is given by reference.
\<close>

subsection \<open>Errors and elementary containers\<close>

datatype error = ExcMessage string | OutOfRange string

type_synonym addr = nat

text \<open>\<^verbatim>\<open>Vector<double>\<close> and the PETSc vectors.\<close>

type_synonym vec = "real list"

text \<open>\<^verbatim>\<open>FullMatrix<double>\<close>: a dense block, row by row.\<close>

type_synonym full_matrix = "real list list"

text \<open>
  A PETSc sparse matrix in assembly: the sequence of the blocks added to it since it was
  last set to zero, each with its row and column indices. \<^verbatim>\<open>compress\<close> sums them up.
\<close>

type_synonym sparse_matrix = "(nat list \<times> nat list \<times> full_matrix) list"

text \<open>\<^verbatim>\<open>std::vector::resize\<close> with value-initialised new elements.\<close>

definition resize :: "nat \<Rightarrow> 'a \<Rightarrow> 'a list \<Rightarrow> 'a list" where
  "resize n d xs = take n xs @ replicate (n - length xs) d"

subsection \<open>Mesh cells\<close>

text \<open>
  A face of a cell is at the boundary, or it has a neighbour: the neighbour's cell
  identifier and the number this face has in the neighbour
  (\<^verbatim>\<open>cell->neighbor(fn)->id()\<close> and \<^verbatim>\<open>cell->neighbor_face_no(fn)\<close>).
  \<^verbatim>\<open>CellId\<close> is totally ordered; it is modelled by \<open>nat\<close>. The list of faces of a
  cell has \<^verbatim>\<open>GeometryInfo<dim>::faces_per_cell\<close> entries.
\<close>

datatype face = AtBoundary | Neighbor nat nat

record cell =
  cell_id :: nat
  material_id :: nat
  faces :: "face list"

fun at_boundary :: "face \<Rightarrow> bool" where
  "at_boundary AtBoundary = True"
| "at_boundary (Neighbor nid nfn) = False"

fun neighbor_id :: "face \<Rightarrow> nat" where
  "neighbor_id AtBoundary = 0"
| "neighbor_id (Neighbor nid nfn) = nid"

fun neighbor_face_no :: "face \<Rightarrow> nat" where
  "neighbor_face_no AtBoundary = 0"
| "neighbor_face_no (Neighbor nid nfn) = nfn"

subsection \<open>The state of an equation object\<close>

record equation =
  equation_name :: string
  discretization :: string
  is_eigen_problem :: bool
  do_nda :: bool
  n_group :: nat
  n_material :: nat
  n_total_vars :: nat
  n_dir :: nat
  dofs_per_cell :: nat
  n_q :: nat
  component_index :: "(nat \<times> nat) \<rightharpoonup> nat"
  inverse_component_index :: "nat \<rightharpoonup> (nat \<times> nat)"
  wi :: "real list"
  is_material_fissile :: "nat \<rightharpoonup> bool"
  all_ksi_nusigf_per_ster :: "nat \<rightharpoonup> real list list"
  scaled_fiss_transfer_per_ster :: "real list list list"
  local_cells :: "cell list"
  is_cell_at_bd :: "bool list"
  get_dof_indices :: "nat \<Rightarrow> nat list"
  sys_mats :: "addr list"
  sys_aflxes :: "addr list"
  sys_rhses :: "addr list"
  sys_fixed_rhses :: "addr list"
  aflxes_proc :: "vec list"
  ho_sflxes_proc :: "vec list"
  mat_store :: "addr \<Rightarrow> sparse_matrix"
  next_mat :: addr
  vec_store :: "addr \<Rightarrow> vec"
  next_vec :: addr

subsection \<open>Index maps\<close>

text \<open>
  \<^verbatim>\<open>get_component_index\<close>, \<^verbatim>\<open>get_component_direction\<close> and
  \<^verbatim>\<open>get_component_group\<close> read the two hash tables with \<^verbatim>\<open>operator[]\<close>.
\<close>

definition get_component_index :: "equation \<Rightarrow> nat \<Rightarrow> nat \<Rightarrow> nat" where
  "get_component_index st incident_angle_index g =
     (case component_index st (incident_angle_index, g) of Some k \<Rightarrow> k | None \<Rightarrow> 0)"

definition get_component_direction :: "equation \<Rightarrow> nat \<Rightarrow> nat" where
  "get_component_direction st comp_ind =
     (case inverse_component_index st comp_ind of Some p \<Rightarrow> fst p | None \<Rightarrow> 0)"

definition get_component_group :: "equation \<Rightarrow> nat \<Rightarrow> nat" where
  "get_component_group st comp_ind =
     (case inverse_component_index st comp_ind of Some p \<Rightarrow> snd p | None \<Rightarrow> 0)"

record index_maps =
  component_index_map :: "(nat \<times> nat) \<rightharpoonup> nat"
  inv_component_map :: "nat \<rightharpoonup> (nat \<times> nat)"

text \<open>
  Modelled from the spec: \<^verbatim>\<open>AQBase<dim>::initialize_component_index\<close>, which fills the
  two tables that \<^verbatim>\<open>process_input\<close> copies from the quadrature object; aq_base.cc is
  not among the sources. The spec (4.1, 3): a total ordering of the
  \<open>n_dir \<times> n_group\<close> components is built; the component index and its inverse are
  two mappings maintained in lockstep. The order of the (direction, group) pairs is the
  argument \<open>keys\<close>; the pair at position \<open>i\<close> gets the component index \<open>ind + i\<close>.
\<close>

fun initialize_component_index ::
  "(nat \<times> nat) list \<Rightarrow> nat \<Rightarrow> index_maps \<Rightarrow> index_maps" where
  "initialize_component_index [] ind m = m"
| "initialize_component_index (key # keys) ind m =
     initialize_component_index keys (Suc ind)
       (m\<lparr>component_index_map := (component_index_map m)(key \<mapsto> ind),
          inv_component_map := (inv_component_map m)(ind \<mapsto> key)\<rparr>)"

definition empty_index_maps :: index_maps where
  "empty_index_maps = \<lparr>component_index_map = Map.empty, inv_component_map = Map.empty\<rparr>"

subsection \<open>Loops whose body can fail\<close>

text \<open>A \<^verbatim>\<open>for\<close> loop over \<open>xs\<close> that stops at the first failure of its body.\<close>

fun fold_err :: "('a \<Rightarrow> 's \<Rightarrow> error + 's) \<Rightarrow> 'a list \<Rightarrow> 's \<Rightarrow> error + 's" where
  "fold_err f [] s = Inr s"
| "fold_err f (x # xs) s =
     (case f x s of Inl e \<Rightarrow> Inl e | Inr s' \<Rightarrow> fold_err f xs s')"

subsection \<open>Scaling the fission transfer matrices\<close>

definition fissile :: "equation \<Rightarrow> nat \<Rightarrow> bool" where
  "fissile st m = (case is_material_fissile st m of Some b \<Rightarrow> b | None \<Rightarrow> False)"

definition ksi_nusigf_per_ster :: "equation \<Rightarrow> nat \<Rightarrow> real list list" where
  "ksi_nusigf_per_ster st m =
     (case all_ksi_nusigf_per_ster st m of Some t \<Rightarrow> t | None \<Rightarrow> [])"

text \<open>
  The assignment
  \<^verbatim>\<open>tmp[gin][g] = all_ksi_nusigf_per_ster[m][gin][g] / keff\<close>; \<open>tmp\<close> has
  \<open>n_group\<close> rows of \<open>n_group\<close> entries, the table of the material may not.
\<close>

definition scale_entry ::
  "equation \<Rightarrow> real \<Rightarrow> nat \<Rightarrow> nat \<Rightarrow> nat \<Rightarrow> real list list \<Rightarrow> error + real list list" where
  "scale_entry st keff m gin g tmp =
     (let t = ksi_nusigf_per_ster st m
      in if gin < length t \<and> g < length (t ! gin)
         then Inr (tmp[gin := (tmp ! gin)[g := t ! gin ! g / keff]])
         else Inl (OutOfRange ''all_ksi_nusigf_per_ster''))"

text \<open>
  The body of the loop over materials: \<open>tmp\<close> starts as the \<open>n_group \<times> n_group\<close>
  matrix of zeros and is filled entry by entry for a fissile material only.
\<close>

definition scaled_matrix :: "equation \<Rightarrow> real \<Rightarrow> nat \<Rightarrow> error + real list list" where
  "scaled_matrix st keff m =
     (let tmp = replicate (n_group st) (replicate (n_group st) 0)
      in if fissile st m
         then fold_err (\<lambda>gin. fold_err (scale_entry st keff m gin) [0..<n_group st])
                [0..<n_group st] tmp
         else Inr tmp)"

definition scale_material ::
  "equation \<Rightarrow> real \<Rightarrow> nat \<Rightarrow> real list list list \<Rightarrow> error + real list list list" where
  "scale_material st keff m scaled =
     (case scaled_matrix st keff m of
        Inl e \<Rightarrow> Inl e
      | Inr tmp \<Rightarrow> Inr (scaled[m := tmp]))"

definition scale_fiss_transfer_matrices :: "real \<Rightarrow> equation \<Rightarrow> error + equation" where
  "scale_fiss_transfer_matrices keff st =
     (if \<not> is_eigen_problem st
      then Inl (ExcMessage ''Only eigen problem calls this member'')
      else case fold_err (scale_material st keff) [0..<n_material st]
                  (resize (n_material st) [] (scaled_fiss_transfer_per_ster st)) of
             Inl e \<Rightarrow> Inl e
           | Inr scaled \<Rightarrow> Inr (st\<lparr>scaled_fiss_transfer_per_ster := scaled\<rparr>))"

subsection \<open>Moments of the angular flux\<close>

text \<open>
  \<^verbatim>\<open>this->add (a, V)\<close> and \<^verbatim>\<open>this->equ (a, V)\<close> of \<^verbatim>\<open>Vector<double>\<close>; the
  last argument is \<^verbatim>\<open>*this\<close>.
\<close>

definition vec_add :: "real \<Rightarrow> vec \<Rightarrow> vec \<Rightarrow> error + vec" where
  "vec_add a V this =
     (if length V = length this
      then Inr (map2 (\<lambda>x y. x + a * y) this V)
      else Inl (OutOfRange ''Vector::add''))"

definition vec_equ :: "real \<Rightarrow> vec \<Rightarrow> vec \<Rightarrow> error + vec" where
  "vec_equ a V this =
     (if length V = length this
      then Inr (map (\<lambda>y. a * y) V)
      else Inl (OutOfRange ''Vector::equ''))"

text \<open>
  The body of the loop over directions, the same in the overload for all groups and in
  the one for a single group: the angular flux of component
  \<^verbatim>\<open>get_component_index(i_dir, g)\<close> is copied from the global vector and added to the
  scalar flux with the weight of the direction.
\<close>

definition add_direction ::
  "nat \<Rightarrow> nat \<Rightarrow> vec \<times> equation \<Rightarrow> error + vec \<times> equation" where
  "add_direction g i_dir p =
     (case p of (sflx, st) \<Rightarrow>
        let i = get_component_index st i_dir g
        in if i < length (aflxes_proc st) \<and> i < length (sys_aflxes st) \<and> i_dir < length (wi st)
           then let st' = st\<lparr>aflxes_proc :=
                              (aflxes_proc st)[i := vec_store st (sys_aflxes st ! i)]\<rparr>
                in case vec_add (wi st' ! i_dir) (aflxes_proc st' ! i) sflx of
                     Inl e \<Rightarrow> Inl e
                   | Inr sflx' \<Rightarrow> Inr (sflx', st')
           else Inl (OutOfRange ''generate_moments''))"

text \<open>
  The overload for one group. The result is the new \<^verbatim>\<open>sflx_proc\<close>, the new
  \<^verbatim>\<open>sflx_proc_old\<close> and the equation; the two vectors are distinct objects.
\<close>

definition generate_moments_group ::
  "vec \<Rightarrow> vec \<Rightarrow> nat \<Rightarrow> equation \<Rightarrow> error + vec \<times> vec \<times> equation" where
  "generate_moments_group sflx_proc sflx_proc_old g st =
     (if \<not> equation_name st \<noteq> ''nda''
      then Inl (ExcMessage ''NDA is not supposed to call this function'')
      else case fold_err (add_direction g) [0..<n_dir st] (map (\<lambda>x. 0) sflx_proc, st) of
             Inl e \<Rightarrow> Inl e
           | Inr (sflx, st') \<Rightarrow> Inr (sflx, sflx_proc, st'))"

text \<open>The overload for all groups at once.\<close>

definition moments_of_group ::
  "nat \<Rightarrow> vec list \<times> vec list \<times> equation \<Rightarrow> error + vec list \<times> vec list \<times> equation" where
  "moments_of_group g p =
     (case p of (sflxes_proc, sflxes_proc_old, st) \<Rightarrow>
        if g < length sflxes_proc \<and> g < length sflxes_proc_old
        then case fold_err (add_direction g) [0..<n_dir st]
                    (map (\<lambda>x. 0) (sflxes_proc ! g), st) of
               Inl e \<Rightarrow> Inl e
             | Inr (sflx, st') \<Rightarrow>
                 Inr (sflxes_proc[g := sflx], sflxes_proc_old[g := sflxes_proc ! g], st')
        else Inl (OutOfRange ''sflxes_proc''))"

definition generate_moments ::
  "vec list \<Rightarrow> vec list \<Rightarrow> equation \<Rightarrow> error + vec list \<times> vec list \<times> equation" where
  "generate_moments sflxes_proc sflxes_proc_old st =
     (if \<not> (equation_name st \<noteq> ''nda'' \<and> do_nda st)
      then Inl (ExcMessage ''only non-NDA is supposed to call this function'')
      else fold_err moments_of_group [0..<n_group st] (sflxes_proc, sflxes_proc_old, st))"

text \<open>The overload without arguments: the scalar flux of the HO solver, for NDA.\<close>

definition copy_aflx :: "nat \<Rightarrow> equation \<Rightarrow> error + equation" where
  "copy_aflx i st =
     (if i < length (aflxes_proc st) \<and> i < length (sys_aflxes st)
      then Inr (st\<lparr>aflxes_proc := (aflxes_proc st)[i := vec_store st (sys_aflxes st ! i)]\<rparr>)
      else Inl (OutOfRange ''aflxes_proc''))"

definition ho_add_direction :: "equation \<Rightarrow> nat \<Rightarrow> nat \<Rightarrow> vec \<Rightarrow> error + vec" where
  "ho_add_direction st g i_dir sflx =
     (let i = get_component_index st i_dir g
      in if i_dir < length (wi st) \<and> i < length (aflxes_proc st)
         then vec_add (wi st ! i_dir) (aflxes_proc st ! i) sflx
         else Inl (OutOfRange ''generate_moments''))"

definition ho_moments_of_group :: "nat \<Rightarrow> equation \<Rightarrow> error + equation" where
  "ho_moments_of_group g st =
     (let i = get_component_index st 0 g
      in if g < length (ho_sflxes_proc st) \<and> 0 < length (wi st) \<and> i < length (aflxes_proc st)
         then case vec_equ (wi st ! 0) (aflxes_proc st ! i) (ho_sflxes_proc st ! g) of
                Inl e \<Rightarrow> Inl e
              | Inr sflx \<Rightarrow>
                  (case fold_err (ho_add_direction st g) [1..<n_dir st] sflx of
                     Inl e \<Rightarrow> Inl e
                   | Inr sflx' \<Rightarrow> Inr (st\<lparr>ho_sflxes_proc := (ho_sflxes_proc st)[g := sflx']\<rparr>))
         else Inl (OutOfRange ''ho_sflxes_proc''))"

definition generate_moments_ho :: "equation \<Rightarrow> error + equation" where
  "generate_moments_ho st =
     (if \<not> (equation_name st \<noteq> ''nda'' \<and> do_nda st)
      then Inl (ExcMessage ''only non-NDA is supposed to call this function'')
      else case fold_err copy_aflx [0..<n_total_vars st] st of
             Inl e \<Rightarrow> Inl e
           | Inr st' \<Rightarrow> fold_err ho_moments_of_group [0..<n_group st'] st')"

subsection \<open>Creating the system matrices and vectors\<close>

text \<open>
  \<^verbatim>\<open>new PETScWrappers::MPI::SparseMatrix\<close> and \<^verbatim>\<open>new PETScWrappers::MPI::Vector\<close>
  return the next free address of the store, holding an empty object.
\<close>

definition new_matrix :: "equation \<Rightarrow> addr \<times> equation" where
  "new_matrix st =
     (next_mat st,
      st\<lparr>mat_store := (mat_store st)(next_mat st := []), next_mat := Suc (next_mat st)\<rparr>)"

definition new_vector :: "equation \<Rightarrow> addr \<times> equation" where
  "new_vector st =
     (next_vec st,
      st\<lparr>vec_store := (vec_store st)(next_vec st := []), next_vec := Suc (next_vec st)\<rparr>)"

text \<open>
  \<^verbatim>\<open>reinit\<close> gives a matrix without entries, and a vector of zeros with one entry per
  degree of freedom (\<open>n_dofs\<close>, the size of the index set \<^verbatim>\<open>local_dofs\<close>). The
  sparsity pattern is not part of the model of a matrix.
\<close>

definition reinit_matrix :: "addr \<Rightarrow> equation \<Rightarrow> equation" where
  "reinit_matrix a st = st\<lparr>mat_store := (mat_store st)(a := [])\<rparr>"

definition reinit_vector :: "nat \<Rightarrow> addr \<Rightarrow> equation \<Rightarrow> equation" where
  "reinit_vector n_dofs a st = st\<lparr>vec_store := (vec_store st)(a := replicate n_dofs 0)\<rparr>"

text \<open>
  The body of the first loop. After each \<^verbatim>\<open>push_back\<close> the collection is read at the
  loop index \<open>i\<close>, which is then within it.
\<close>

definition init_component :: "nat \<Rightarrow> nat \<Rightarrow> equation \<Rightarrow> equation" where
  "init_component n_dofs i st =
     (case new_matrix st of (a, st) \<Rightarrow>
        let st = st\<lparr>sys_mats := sys_mats st @ [a]\<rparr>;
            st = reinit_matrix (sys_mats st ! i) st
        in case new_vector st of (a, st) \<Rightarrow>
        let st = st\<lparr>sys_aflxes := sys_aflxes st @ [a]\<rparr>;
            st = reinit_vector n_dofs (sys_aflxes st ! i) st
        in case new_vector st of (a, st) \<Rightarrow>
        let st = st\<lparr>sys_rhses := sys_rhses st @ [a]\<rparr>;
            st = reinit_vector n_dofs (sys_rhses st ! i) st
        in case new_vector st of (a, st) \<Rightarrow>
        let st = st\<lparr>sys_fixed_rhses := sys_fixed_rhses st @ [a]\<rparr>
        in reinit_vector n_dofs (sys_fixed_rhses st ! i) st)"

text \<open>
  The body of the second loop: \<^verbatim>\<open>sflxes_proc[g]\<close> takes the shape of
  \<^verbatim>\<open>*sys_aflxes[g]\<close> and then the value \<open>1.0\<close> in every entry.
\<close>

definition init_sflx :: "equation \<Rightarrow> nat \<Rightarrow> vec list \<Rightarrow> error + vec list" where
  "init_sflx st g sflxes_proc =
     (if g < length (sys_aflxes st)
      then Inr (sflxes_proc[g := map (\<lambda>x. 1) (vec_store st (sys_aflxes st ! g))])
      else Inl (OutOfRange ''sys_aflxes''))"

definition initialize_system_matrices_vectors ::
  "nat \<Rightarrow> vec list \<Rightarrow> equation \<Rightarrow> error + vec list \<times> equation" where
  "initialize_system_matrices_vectors n_dofs sflxes_proc st =
     (let st' = fold (init_component n_dofs) [0..<n_total_vars st] st
      in if \<not> length sflxes_proc = n_group st'
         then Inl (ExcMessage ''sflxes_proc has to be initilized in size outside'')
         else case fold_err (init_sflx st') [0..<n_group st'] sflxes_proc of
                Inl e \<Rightarrow> Inl e
              | Inr sflxes \<Rightarrow> Inr (sflxes, st'))"

subsection \<open>Integrators and the linear-algebra object\<close>

text \<open>
  The virtual functions of \<^verbatim>\<open>EquationBase\<close> that a transport model overrides. An
  argument passed by reference and written by the integrator is an argument and the
  result. The neighbour of a cell is given by its cell identifier.
\<close>

record integrators =
  pre_assemble_cell_matrices ::
    "cell \<Rightarrow> full_matrix list list \<times> full_matrix list \<Rightarrow>
       full_matrix list list \<times> full_matrix list"
  integrate_cell_bilinear_form ::
    "cell \<Rightarrow> full_matrix \<Rightarrow> full_matrix list list \<times> full_matrix list \<Rightarrow> nat \<Rightarrow> nat \<Rightarrow>
       full_matrix"
  integrate_boundary_bilinear_form :: "cell \<Rightarrow> nat \<Rightarrow> full_matrix \<Rightarrow> nat \<Rightarrow> nat \<Rightarrow> full_matrix"
  integrate_boundary_linear_form :: "cell \<Rightarrow> nat \<Rightarrow> vec \<Rightarrow> nat \<Rightarrow> nat \<Rightarrow> vec"
  integrate_interface_bilinear_form ::
    "cell \<Rightarrow> nat \<Rightarrow> nat \<Rightarrow> full_matrix \<times> full_matrix \<times> full_matrix \<times> full_matrix \<Rightarrow>
       nat \<Rightarrow> nat \<Rightarrow> full_matrix \<times> full_matrix \<times> full_matrix \<times> full_matrix"
  integrate_scattering_linear_form :: "cell \<Rightarrow> vec \<Rightarrow> vec list \<Rightarrow> nat \<Rightarrow> nat \<Rightarrow> vec"

text \<open>The bodies of the base class are empty.\<close>

definition EquationBase_integrators :: integrators where
  "EquationBase_integrators =
     \<lparr>pre_assemble_cell_matrices = (\<lambda>cell pre. pre),
      integrate_cell_bilinear_form = (\<lambda>cell cell_matrix pre g i_dir. cell_matrix),
      integrate_boundary_bilinear_form = (\<lambda>cell fn cell_matrix g i_dir. cell_matrix),
      integrate_boundary_linear_form = (\<lambda>cell fn cell_rhses g i_dir. cell_rhses),
      integrate_interface_bilinear_form = (\<lambda>cell neigh fn blocks g i_dir. blocks),
      integrate_scattering_linear_form = (\<lambda>cell cell_rhs sflx_proc g i_dir. cell_rhs)\<rparr>"

text \<open>
  \<^verbatim>\<open>PreconditionerSolver\<close> is an external collaborator: what
  \<^verbatim>\<open>alg_ptr->initialize_preconditioners (sys_mats, sys_rhses)\<close> does is a parameter.
\<close>

record preconditioner_solver =
  initialize_preconditioners :: "equation \<Rightarrow> error + equation"

definition zero_matrix :: "nat \<Rightarrow> full_matrix" where
  "zero_matrix n = replicate n (replicate n 0)"

text \<open>
  \<^verbatim>\<open>*sys_mats[k] = 0.0\<close> and \<^verbatim>\<open>sys_mats[k]->add (rows, cols, block)\<close> on the
  matrix at address \<open>a\<close>.
\<close>

definition mat_set_zero :: "addr \<Rightarrow> equation \<Rightarrow> equation" where
  "mat_set_zero a st = st\<lparr>mat_store := (mat_store st)(a := [])\<rparr>"

definition mat_add :: "addr \<Rightarrow> nat list \<Rightarrow> nat list \<Rightarrow> full_matrix \<Rightarrow> equation \<Rightarrow> equation" where
  "mat_add a rows cols block st =
     st\<lparr>mat_store := (mat_store st)(a := mat_store st a @ [(rows, cols, block)])\<rparr>"

text \<open>
  \<^verbatim>\<open>add (indices, values)\<close> of a PETSc vector; PETSc refuses an index past the end.
\<close>

definition add_values :: "nat list \<Rightarrow> vec \<Rightarrow> vec \<Rightarrow> error + vec" where
  "add_values indices values this =
     (if length indices = length values \<and> (\<forall>i \<in> set indices. i < length this)
      then Inr (fold (\<lambda>p v. v[fst p := v ! fst p + snd p]) (zip indices values) this)
      else Inl (OutOfRange ''VectorBase::add''))"

subsection \<open>Bilinear forms\<close>

text \<open>The faces of a boundary cell: every boundary face adds to the local matrix.\<close>

definition boundary_bilinear_form ::
  "integrators \<Rightarrow> cell \<Rightarrow> nat \<Rightarrow> nat \<Rightarrow> full_matrix \<Rightarrow> full_matrix" where
  "boundary_bilinear_form hooks c g i_dir local_mat =
     fold (\<lambda>fn local_mat.
             if at_boundary (faces c ! fn)
             then integrate_boundary_bilinear_form hooks c fn local_mat g i_dir
             else local_mat)
       [0..<length (faces c)] local_mat"

definition volume_cell ::
  "integrators \<Rightarrow> full_matrix list list \<times> full_matrix list \<Rightarrow> nat \<Rightarrow> nat \<Rightarrow> nat \<Rightarrow> nat \<Rightarrow>
     equation \<Rightarrow> error + equation" where
  "volume_cell hooks pre k g i_dir ic st =
     (if ic < length (is_cell_at_bd st)
      then let c = local_cells st ! ic;
               local_dof_indices = get_dof_indices st (cell_id c);
               local_mat = integrate_cell_bilinear_form hooks c
                             (zero_matrix (dofs_per_cell st)) pre g i_dir;
               local_mat = (if is_cell_at_bd st ! ic
                            then boundary_bilinear_form hooks c g i_dir local_mat
                            else local_mat)
           in Inr (mat_add (sys_mats st ! k) local_dof_indices local_dof_indices local_mat st)
      else Inl (OutOfRange ''is_cell_at_bd''))"

definition volume_component ::
  "integrators \<Rightarrow> full_matrix list list \<times> full_matrix list \<Rightarrow> nat \<Rightarrow> equation \<Rightarrow>
     error + equation" where
  "volume_component hooks pre k st =
     (if k < length (sys_mats st)
      then let st = mat_set_zero (sys_mats st ! k) st;
               g = get_component_group st k;
               i_dir = get_component_direction st k
           in fold_err (volume_cell hooks pre k g i_dir) [0..<length (local_cells st)] st
      else Inl (OutOfRange ''sys_mats''))"

definition assemble_volume_boundary_bilinear_form ::
  "integrators \<Rightarrow> equation \<Rightarrow> error + equation" where
  "assemble_volume_boundary_bilinear_form hooks st =
     (let streaming_at_qp =
            replicate (n_q st) (replicate (n_dir st) (zero_matrix (dofs_per_cell st)));
          collision_at_qp = replicate (n_q st) (zero_matrix (dofs_per_cell st))
      in if 0 < length (local_cells st)
         then let pre = pre_assemble_cell_matrices hooks (local_cells st ! 0)
                          (streaming_at_qp, collision_at_qp)
              in fold_err (volume_component hooks pre) [0..<n_total_vars st] st
         else Inl (OutOfRange ''local_cells''))"

text \<open>
  The interface driver. A face is a target face when it is not at the boundary and the
  cell identifier of the neighbour is less than that of the cell; then the four blocks
  of the interface integrator are added to the matrix of the component.
\<close>

definition target_face :: "cell \<Rightarrow> nat \<Rightarrow> bool" where
  "target_face c fn =
     (\<not> at_boundary (faces c ! fn) \<and> neighbor_id (faces c ! fn) < cell_id c)"

definition interface_face :: "integrators \<Rightarrow> nat \<Rightarrow> cell \<Rightarrow> nat \<Rightarrow> equation \<Rightarrow> equation" where
  "interface_face hooks k c fn st =
     (if target_face c fn
      then let g = get_component_group st k;
               i_dir = get_component_direction st k;
               local_dof_indices = get_dof_indices st (cell_id c);
               neigh = neighbor_id (faces c ! fn);
               neigh_dof_indices = get_dof_indices st neigh;
               z = zero_matrix (dofs_per_cell st)
           in case integrate_interface_bilinear_form hooks c neigh fn (z, z, z, z) g i_dir of
                (vi_ui, vi_ue, ve_ui, ve_ue) \<Rightarrow>
                  mat_add (sys_mats st ! k) neigh_dof_indices neigh_dof_indices ve_ue
                    (mat_add (sys_mats st ! k) neigh_dof_indices local_dof_indices ve_ui
                      (mat_add (sys_mats st ! k) local_dof_indices neigh_dof_indices vi_ue
                        (mat_add (sys_mats st ! k) local_dof_indices local_dof_indices vi_ui
                           st)))
      else st)"

definition interface_cell :: "integrators \<Rightarrow> nat \<Rightarrow> cell \<Rightarrow> equation \<Rightarrow> equation" where
  "interface_cell hooks k c st = fold (interface_face hooks k c) [0..<length (faces c)] st"

definition interface_component :: "integrators \<Rightarrow> nat \<Rightarrow> equation \<Rightarrow> error + equation" where
  "interface_component hooks k st =
     (if k < length (sys_mats st)
      then Inr (fold (interface_cell hooks k) (local_cells st) st)
      else Inl (OutOfRange ''sys_mats''))"

definition assemble_interface_bilinear_form ::
  "integrators \<Rightarrow> equation \<Rightarrow> error + equation" where
  "assemble_interface_bilinear_form hooks st =
     fold_err (interface_component hooks) [0..<n_total_vars st] st"

definition assemble_bilinear_form ::
  "integrators \<Rightarrow> preconditioner_solver \<Rightarrow> equation \<Rightarrow> error + equation" where
  "assemble_bilinear_form hooks alg st =
     (case assemble_volume_boundary_bilinear_form hooks st of
        Inl e \<Rightarrow> Inl e
      | Inr st \<Rightarrow>
          if discretization st = ''dfem''
          then if \<not> equation_name st = ''ep''
               then Inl (ExcMessage ''DFEM is only implemented for even parity'')
               else case assemble_interface_bilinear_form hooks st of
                      Inl e \<Rightarrow> Inl e
                    | Inr st \<Rightarrow> initialize_preconditioners alg st
          else initialize_preconditioners alg st)"

subsection \<open>Linear forms\<close>

definition boundary_linear_form :: "integrators \<Rightarrow> cell \<Rightarrow> nat \<Rightarrow> nat \<Rightarrow> vec \<Rightarrow> vec" where
  "boundary_linear_form hooks c g i_dir cell_rhs =
     fold (\<lambda>fn cell_rhs.
             if at_boundary (faces c ! fn)
             then integrate_boundary_linear_form hooks c fn cell_rhs g i_dir
             else cell_rhs)
       [0..<length (faces c)] cell_rhs"

text \<open>The right-hand side of one cell: scattering source, then boundary terms.\<close>

definition cell_linear_form ::
  "integrators \<Rightarrow> vec list \<Rightarrow> nat \<Rightarrow> nat \<Rightarrow> equation \<Rightarrow> nat \<Rightarrow> vec" where
  "cell_linear_form hooks sflxes_proc g i_dir st ic =
     (let c = local_cells st ! ic;
          cell_rhs = integrate_scattering_linear_form hooks c
                       (replicate (dofs_per_cell st) 0) sflxes_proc g i_dir
      in if is_cell_at_bd st ! ic
         then boundary_linear_form hooks c g i_dir cell_rhs
         else cell_rhs)"

definition linear_cell ::
  "integrators \<Rightarrow> vec list \<Rightarrow> nat \<Rightarrow> nat \<Rightarrow> nat \<Rightarrow> nat \<Rightarrow> equation \<Rightarrow> error + equation" where
  "linear_cell hooks sflxes_proc k g i_dir ic st =
     (if ic < length (is_cell_at_bd st)
      then let local_dof_indices = get_dof_indices st (cell_id (local_cells st ! ic));
               cell_rhs = cell_linear_form hooks sflxes_proc g i_dir st ic
           in case add_values local_dof_indices cell_rhs (vec_store st (sys_rhses st ! k)) of
                Inl e \<Rightarrow> Inl e
              | Inr v \<Rightarrow> Inr (st\<lparr>vec_store := (vec_store st)(sys_rhses st ! k := v)\<rparr>)
      else Inl (OutOfRange ''is_cell_at_bd''))"

definition linear_component ::
  "integrators \<Rightarrow> vec list \<Rightarrow> nat \<Rightarrow> nat \<Rightarrow> equation \<Rightarrow> error + equation" where
  "linear_component hooks sflxes_proc g k st =
     (if get_component_group st k = g
      then if k < length (sys_rhses st) \<and> k < length (sys_fixed_rhses st)
           then let i_dir = get_component_direction st k;
                    st = st\<lparr>vec_store := (vec_store st)
                              (sys_rhses st ! k := vec_store st (sys_fixed_rhses st ! k))\<rparr>
                in fold_err (linear_cell hooks sflxes_proc k g i_dir)
                     [0..<length (local_cells st)] st
           else Inl (OutOfRange ''sys_rhses'')
      else Inr st)"

definition assemble_linear_form ::
  "integrators \<Rightarrow> vec list \<Rightarrow> nat \<Rightarrow> equation \<Rightarrow> error + equation" where
  "assemble_linear_form hooks sflxes_proc g st =
     fold_err (linear_component hooks sflxes_proc g) [0..<n_total_vars st] st"

subsection \<open>Power iteration\<close>

text \<open>
  The loop of \<^verbatim>\<open>eigen_iterations\<close> is governed by comparisons of doubles, and a
  comparison with NaN is false whichever way it is written. The two errors and the two
  tolerances are therefore values of \<open>double\<close>: a real number, an infinity or NaN, with
  the comparisons \<^verbatim>\<open>x > y\<close> and \<^verbatim>\<open>x <= y\<close> of IEEE 754. Rounding is not modelled.
\<close>

datatype double = Finite real | PlusInf | MinusInf | NaN

fun double_gt :: "double \<Rightarrow> double \<Rightarrow> bool" where
  "double_gt NaN y = False"
| "double_gt x NaN = False"
| "double_gt (Finite a) (Finite b) = (a > b)"
| "double_gt (Finite a) PlusInf = False"
| "double_gt (Finite a) MinusInf = True"
| "double_gt PlusInf PlusInf = False"
| "double_gt PlusInf y = True"
| "double_gt MinusInf y = False"

fun double_le :: "double \<Rightarrow> double \<Rightarrow> bool" where
  "double_le NaN y = False"
| "double_le x NaN = False"
| "double_le (Finite a) (Finite b) = (a \<le> b)"
| "double_le (Finite a) PlusInf = True"
| "double_le (Finite a) MinusInf = False"
| "double_le PlusInf PlusInf = True"
| "double_le PlusInf y = False"
| "double_le MinusInf y = True"

text \<open>
  \<^verbatim>\<open>eigen_iterations\<close> calls members of \<^verbatim>\<open>EigenBase\<close>, of \<^verbatim>\<open>MGBase\<close> and of the
  equations at the back and at the front of \<^verbatim>\<open>equ_ptrs\<close>. They are external to
  power_iteration.cc and are parameters here. \<open>'w\<close> is everything they read and
  write: the scalar fluxes, the equations and the members of the iteration objects.
\<close>

record 'w eigen_ops =
  update_prev_sflxes_fiss_src_keff :: "'w \<Rightarrow> error + 'w"
  keff :: "'w \<Rightarrow> real"
  back_scale_fiss_transfer_matrices :: "real \<Rightarrow> 'w \<Rightarrow> error + 'w"
  back_assemble_fixed_linear_form :: "'w \<Rightarrow> error + 'w"
  mg_iterations :: "'w \<Rightarrow> error + 'w"
  calculate_fiss_src_keff :: "'w \<Rightarrow> error + 'w"
  estimate_phi_diff :: "'w \<Rightarrow> double"
  estimate_k_diff :: "'w \<Rightarrow> double"
  err_k_tol :: double
  err_phi_tol :: double

text \<open>The local variables of \<^verbatim>\<open>eigen_iterations\<close> and the world.\<close>

record 'w outer =
  err_k :: double
  err_phi :: double
  iter :: int
  world :: 'w

text \<open>The body of the \<^verbatim>\<open>while\<close> loop.\<close>

definition outer_iteration :: "'w eigen_ops \<Rightarrow> 'w outer \<Rightarrow> error + 'w outer" where
  "outer_iteration ops x =
     (case update_prev_sflxes_fiss_src_keff ops (world x) of Inl e \<Rightarrow> Inl e | Inr w \<Rightarrow>
      case back_scale_fiss_transfer_matrices ops (keff ops w) w of Inl e \<Rightarrow> Inl e | Inr w \<Rightarrow>
      case back_assemble_fixed_linear_form ops w of Inl e \<Rightarrow> Inl e | Inr w \<Rightarrow>
      case mg_iterations ops w of Inl e \<Rightarrow> Inl e | Inr w \<Rightarrow>
      case calculate_fiss_src_keff ops w of Inl e \<Rightarrow> Inl e | Inr w \<Rightarrow>
        let err_phi' = estimate_phi_diff ops w;
            err_k' = estimate_k_diff ops w
        in Inr \<lparr>err_k = err_k', err_phi = err_phi', iter = iter x + 1, world = w\<rparr>)"

text \<open>
  The condition of the loop,
  \<^verbatim>\<open>err_k>this->err_k_tol || err_phi>this->err_phi_tol\<close>, on doubles.
\<close>

definition not_converged :: "'w eigen_ops \<Rightarrow> 'w outer \<Rightarrow> bool" where
  "not_converged ops x =
     (double_gt (err_k x) (err_k_tol ops) \<or> double_gt (err_phi x) (err_phi_tol ops))"

text \<open>
  The \<^verbatim>\<open>while\<close> loop: \<open>None\<close> when it runs forever, \<open>Some (Inl e)\<close> when a call
  throws, \<open>Some (Inr x)\<close> when it is left through its condition.
\<close>

partial_function (option) eigen_loop ::
  "'w eigen_ops \<Rightarrow> 'w outer \<Rightarrow> (error + 'w outer) option" where
  "eigen_loop ops x =
     (if not_converged ops x
      then case outer_iteration ops x of
             Inl e \<Rightarrow> Some (Inl e)
           | Inr x' \<Rightarrow> eigen_loop ops x'
      else Some (Inr x))"

text \<open>The local variables before the loop.\<close>

definition start :: "'w \<Rightarrow> 'w outer" where
  "start w = \<lparr>err_k = Finite 1.0, err_phi = Finite 1.0, iter = 0, world = w\<rparr>"

definition eigen_iterations :: "'w eigen_ops \<Rightarrow> 'w \<Rightarrow> (error + 'w outer) option" where
  "eigen_iterations ops w = eigen_loop ops (start w)"

subsection \<open>Well-formedness conditions and derived notions used in the statements\<close>

text \<open>
  The fission table of every fissile material has at least \<open>n_group\<close> rows of at
  least \<open>n_group\<close> entries, so that \<^verbatim>\<open>scale_fiss_transfer_matrices\<close> reads within it.
\<close>

definition fission_tables_ok :: "equation \<Rightarrow> bool" where
  "fission_tables_ok st =
     (\<forall>m < n_material st. fissile st m \<longrightarrow>
        n_group st \<le> length (ksi_nusigf_per_ster st m) \<and>
        (\<forall>gin < n_group st. n_group st \<le> length (ksi_nusigf_per_ster st m ! gin)))"

definition shape_ok :: "nat \<Rightarrow> real list list \<Rightarrow> bool" where
  "shape_ok n tmp = (length tmp = n \<and> (\<forall>r < n. length (tmp ! r) = n))"

text \<open>The global angular flux of direction \<open>i_dir\<close> and group \<open>g\<close>.\<close>

definition angular_flux :: "equation \<Rightarrow> nat \<Rightarrow> nat \<Rightarrow> vec" where
  "angular_flux st i_dir g = vec_store st (sys_aflxes st ! get_component_index st i_dir g)"

text \<open>
  What \<^verbatim>\<open>generate_moments\<close> for group \<open>g\<close> needs to stay within its containers:
  one weight per direction, and for every direction a component index within
  \<^verbatim>\<open>aflxes_proc\<close> and \<^verbatim>\<open>sys_aflxes\<close> whose angular flux has \<open>n\<close> entries.
\<close>

definition moments_ready :: "equation \<Rightarrow> nat \<Rightarrow> nat \<Rightarrow> bool" where
  "moments_ready st g n =
     (length (wi st) = n_dir st \<and>
      (\<forall>i_dir < n_dir st.
         get_component_index st i_dir g < length (aflxes_proc st) \<and>
         get_component_index st i_dir g < length (sys_aflxes st) \<and>
         length (angular_flux st i_dir g) = n))"

text \<open>
  The collections and the allocation counters after \<open>i\<close> rounds of the first loop of
  \<^verbatim>\<open>initialize_system_matrices_vectors\<close> started in \<open>st\<close>.
\<close>

definition created :: "equation \<Rightarrow> nat \<Rightarrow> equation \<Rightarrow> bool" where
  "created st i s =
     (sys_mats s = sys_mats st @ map (\<lambda>j. next_mat st + j) [0..<i] \<and>
      next_mat s = next_mat st + i \<and>
      sys_aflxes s = sys_aflxes st @ map (\<lambda>j. next_vec st + 3 * j) [0..<i] \<and>
      sys_rhses s = sys_rhses st @ map (\<lambda>j. next_vec st + 3 * j + 1) [0..<i] \<and>
      sys_fixed_rhses s = sys_fixed_rhses st @ map (\<lambda>j. next_vec st + 3 * j + 2) [0..<i] \<and>
      next_vec s = next_vec st + 3 * i \<and>
      n_group s = n_group st \<and> n_total_vars s = n_total_vars st)"

text \<open>
  The right-hand side of component \<open>k\<close> as the loop over the cells of
  \<^verbatim>\<open>assemble_linear_form\<close> builds it, one \<^verbatim>\<open>add\<close> after the other, from the
  fixed right-hand side.
\<close>

definition cell_contribution ::
  "integrators \<Rightarrow> vec list \<Rightarrow> nat \<Rightarrow> nat \<Rightarrow> equation \<Rightarrow> nat \<Rightarrow> vec \<Rightarrow> error + vec" where
  "cell_contribution hooks sflxes_proc g i_dir st ic v =
     add_values (get_dof_indices st (cell_id (local_cells st ! ic)))
       (cell_linear_form hooks sflxes_proc g i_dir st ic) v"

definition rhs_of_component ::
  "integrators \<Rightarrow> vec list \<Rightarrow> nat \<Rightarrow> equation \<Rightarrow> nat \<Rightarrow> error + vec" where
  "rhs_of_component hooks sflxes_proc g st k =
     fold_err (cell_contribution hooks sflxes_proc g (get_component_direction st k) st)
       [0..<length (local_cells st)] (vec_store st (sys_fixed_rhses st ! k))"

text \<open>
  The increment of a right-hand side in the words of the specification. The linear form
  of a cell is its scattering source, integrated into a vector of \<open>dofs_per_cell\<close>
  zeros, followed for a cell at the boundary by the boundary term of each of its
  boundary faces, in the order of the faces.
\<close>

definition boundary_faces :: "cell \<Rightarrow> nat list" where
  "boundary_faces c = filter (\<lambda>fn. at_boundary (faces c ! fn)) [0..<length (faces c)]"

definition scattering_and_boundary ::
  "integrators \<Rightarrow> vec list \<Rightarrow> nat \<Rightarrow> nat \<Rightarrow> equation \<Rightarrow> nat \<Rightarrow> vec" where
  "scattering_and_boundary hooks sflxes_proc g i_dir st ic =
     (let c = local_cells st ! ic;
          source = integrate_scattering_linear_form hooks c
                     (replicate (dofs_per_cell st) 0) sflxes_proc g i_dir
      in if is_cell_at_bd st ! ic
         then foldl (\<lambda>cell_rhs fn. integrate_boundary_linear_form hooks c fn cell_rhs g i_dir)
                source (boundary_faces c)
         else source)"

text \<open>
  What a list of values adds to the entry \<open>j\<close> of a vector when the values are added
  at the given indices: the sum of the values whose index is \<open>j\<close>.
\<close>

definition added_at :: "nat list \<Rightarrow> vec \<Rightarrow> nat \<Rightarrow> real" where
  "added_at indices values j =
     sum_list (map snd (filter (\<lambda>p. fst p = j) (zip indices values)))"

text \<open>
  The increment of the entry \<open>j\<close> of a right-hand side: what the linear forms of all
  local cells add there, each at the degrees of freedom of its cell.
\<close>

definition rhs_increment ::
  "integrators \<Rightarrow> vec list \<Rightarrow> nat \<Rightarrow> nat \<Rightarrow> equation \<Rightarrow> nat \<Rightarrow> real" where
  "rhs_increment hooks sflxes_proc g i_dir st j =
     sum_list (map (\<lambda>ic. added_at (get_dof_indices st (cell_id (local_cells st ! ic)))
                          (scattering_and_boundary hooks sflxes_proc g i_dir st ic) j)
                 [0..<length (local_cells st)])"

text \<open>
  The sides from which \<^verbatim>\<open>assemble_interface_bilinear_form\<close> assembles an interface:
  the target faces of the cells, in the order of the two loops.
\<close>

definition target_sides :: "cell list \<Rightarrow> (cell \<times> nat) list" where
  "target_sides cells =
     concat (map (\<lambda>c. map (Pair c) (filter (target_face c) [0..<length (faces c)])) cells)"

text \<open>The four blocks that the body of the loop adds for one target face.\<close>

definition interface_blocks ::
  "integrators \<Rightarrow> equation \<Rightarrow> nat \<Rightarrow> cell \<times> nat \<Rightarrow> sparse_matrix" where
  "interface_blocks hooks st k side =
     (case side of (c, fn) \<Rightarrow>
        let local_dof_indices = get_dof_indices st (cell_id c);
            neigh = neighbor_id (faces c ! fn);
            neigh_dof_indices = get_dof_indices st neigh;
            z = zero_matrix (dofs_per_cell st)
        in case integrate_interface_bilinear_form hooks c neigh fn (z, z, z, z)
                  (get_component_group st k) (get_component_direction st k) of
             (vi_ui, vi_ue, ve_ui, ve_ue) \<Rightarrow>
               [(local_dof_indices, local_dof_indices, vi_ui),
                (local_dof_indices, neigh_dof_indices, vi_ue),
                (neigh_dof_indices, local_dof_indices, ve_ui),
                (neigh_dof_indices, neigh_dof_indices, ve_ue)])"

text \<open>How often the face \<open>fn\<close> of the cell with identifier \<open>a\<close> is a target face.\<close>

definition times_assembled :: "nat \<Rightarrow> nat \<Rightarrow> cell list \<Rightarrow> nat" where
  "times_assembled a fn cells =
     length (filter (\<lambda>side. cell_id (fst side) = a \<and> snd side = fn) (target_sides cells))"

text \<open>
  A mesh: the cells have distinct identifiers; a cell is not its own neighbour; and when
  the face \<open>fn\<close> of \<open>c\<close> has the neighbour \<open>b\<close>, where it is the face \<open>m\<close>, then
  \<open>b\<close> is a cell of the mesh whose face \<open>m\<close> has the neighbour \<open>c\<close>, where it is
  the face \<open>fn\<close>.
\<close>

definition mesh_ok :: "cell list \<Rightarrow> bool" where
  "mesh_ok cells =
     (distinct (map cell_id cells) \<and>
      (\<forall>c \<in> set cells. \<forall>fn < length (faces c). \<forall>b m.
         faces c ! fn = Neighbor b m \<longrightarrow>
           b \<noteq> cell_id c \<and>
           (\<exists>c' \<in> set cells. cell_id c' = b \<and> m < length (faces c') \<and>
              faces c' ! m = Neighbor (cell_id c) fn)))"

text \<open>
  The result of \<open>n\<close> rounds of the body of the loop of \<^verbatim>\<open>eigen_iterations\<close>,
  stopping at the first call that throws.
\<close>

fun outer_iterate :: "'w eigen_ops \<Rightarrow> nat \<Rightarrow> 'w outer \<Rightarrow> error + 'w outer" where
  "outer_iterate ops 0 x = Inr x"
| "outer_iterate ops (Suc n) x =
     (case outer_iteration ops x of Inl e \<Rightarrow> Inl e | Inr y \<Rightarrow> outer_iterate ops n y)"

subsection \<open>A small problem: two groups, two directions, two cells\<close>

definition left_cell :: cell where
  "left_cell =
     \<lparr>cell_id = 0, material_id = 0,
      faces = [AtBoundary, Neighbor 1 0, AtBoundary, AtBoundary]\<rparr>"

definition right_cell :: cell where
  "right_cell =
     \<lparr>cell_id = 1, material_id = 1,
      faces = [Neighbor 0 1, AtBoundary, AtBoundary, AtBoundary]\<rparr>"

definition two_cells :: "cell list" where
  "two_cells = [left_cell, right_cell]"

definition component_order :: "(nat \<times> nat) list" where
  "component_order = [(0, 0), (1, 0), (0, 1), (1, 1)]"

definition small_problem :: equation where
  "small_problem =
     \<lparr>equation_name = ''ep'', discretization = ''dfem'', is_eigen_problem = True,
      do_nda = False, n_group = 2, n_material = 2, n_total_vars = 4, n_dir = 2,
      dofs_per_cell = 1, n_q = 1,
      component_index =
        component_index_map (initialize_component_index component_order 0 empty_index_maps),
      inverse_component_index =
        inv_component_map (initialize_component_index component_order 0 empty_index_maps),
      wi = [1, 3],
      is_material_fissile = [0 \<mapsto> True, 1 \<mapsto> False],
      all_ksi_nusigf_per_ster = [0 \<mapsto> [[2, 4], [6, 8]]],
      scaled_fiss_transfer_per_ster = [],
      local_cells = two_cells, is_cell_at_bd = [True, True],
      get_dof_indices = (\<lambda>c. [c]),
      sys_mats = [0, 1, 2, 3], sys_aflxes = [0, 1, 2, 3],
      sys_rhses = [4, 5, 6, 7], sys_fixed_rhses = [8, 9, 10, 11],
      aflxes_proc = [[], [], [], []], ho_sflxes_proc = [[], []],
      mat_store = (\<lambda>a. []), next_mat = 4,
      vec_store = (\<lambda>a. if a < 4 then [1, 1] else [real a, 2]), next_vec = 12\<rparr>"

text \<open>
  Integrators that leave a trace: the scattering source adds the scalar flux of the
  group at the cell and the number of the direction; the boundary term of the face
  \<open>fn\<close> doubles the vector and adds \<open>fn\<close>, so that the order of the faces shows.
\<close>

definition tracing_integrators :: integrators where
  "tracing_integrators =
     EquationBase_integrators
       \<lparr>integrate_boundary_linear_form :=
          (\<lambda>cell fn cell_rhs g i_dir. map (\<lambda>x. 2 * x + real fn) cell_rhs),
        integrate_scattering_linear_form :=
          (\<lambda>cell cell_rhs sflx_proc g i_dir.
             map (\<lambda>x. x + sflx_proc ! g ! cell_id cell + real i_dir) cell_rhs)\<rparr>"

text \<open>The same problem before its matrices and vectors are created.\<close>

definition fresh_problem :: equation where
  "fresh_problem =
     small_problem\<lparr>sys_mats := [], sys_aflxes := [], sys_rhses := [], sys_fixed_rhses := [],
       next_mat := 0, next_vec := 0\<rparr>"

text \<open>The small problem on two processes, one cell each.\<close>

definition two_processes :: "equation list" where
  "two_processes =
     [small_problem\<lparr>local_cells := [left_cell], is_cell_at_bd := [True]\<rparr>,
      small_problem\<lparr>local_cells := [right_cell], is_cell_at_bd := [True]\<rparr>]"

text \<open>
  Operations for \<^verbatim>\<open>eigen_iterations\<close> that only record their calls: the world is the
  list of the calls made, and both errors are the inverse of its length.
\<close>

definition logging_ops :: "real \<Rightarrow> string list eigen_ops" where
  "logging_ops tol =
     \<lparr>update_prev_sflxes_fiss_src_keff = (\<lambda>w. Inr (w @ [''update''])),
      keff = (\<lambda>w. 1),
      back_scale_fiss_transfer_matrices = (\<lambda>k w. Inr (w @ [''scale''])),
      back_assemble_fixed_linear_form = (\<lambda>w. Inr (w @ [''fixed''])),
      mg_iterations = (\<lambda>w. Inr (w @ [''mg''])),
      calculate_fiss_src_keff = (\<lambda>w. Inr (w @ [''keff''])),
      estimate_phi_diff = (\<lambda>w. Finite (1 / real (length w))),
      estimate_k_diff = (\<lambda>w. Finite (1 / real (length w))),
      err_k_tol = Finite tol, err_phi_tol = Finite tol\<rparr>"

text \<open>
  The same operations with an eigenvalue error that is NaN, as a relative change
  \<open>0 / 0\<close> is, and the state in which the loop is then left.
\<close>

definition nan_ops :: "string list eigen_ops" where
  "nan_ops = (logging_ops (1 / 2))\<lparr>estimate_k_diff := (\<lambda>w. NaN)\<rparr>"

definition nan_result :: "string list outer" where
  "nan_result =
     \<lparr>err_k = NaN, err_phi = Finite (1 / 5), iter = 1,
      world = [''update'', ''scale'', ''fixed'', ''mg'', ''keff'']\<rparr>"

section \<open>Verification\<close>

subsection \<open>Rules for loops and small facts\<close>

lemma fold_err_append:
  "fold_err f (xs @ ys) s =
     (case fold_err f xs s of Inl e \<Rightarrow> Inl e | Inr s' \<Rightarrow> fold_err f ys s')"
  by (induction xs arbitrary: s) (auto split: sum.splits)

lemma fold_err_upt_total:
  assumes "I 0 s"
    and "\<And>i t. i < n \<Longrightarrow> I i t \<Longrightarrow> \<exists>t'. f i t = Inr t' \<and> I (Suc i) t'"
  shows "\<exists>s'. fold_err f [0..<n] s = Inr s' \<and> I n s'"
  using assms(2)
proof (induction n)
  case 0
  with assms(1) show ?case by simp
next
  case (Suc n)
  from Suc.IH Suc.prems obtain t where t: "fold_err f [0..<n] s = Inr t" "I n t"
    by (metis less_Suc_eq)
  from Suc.prems [of n t] t(2) obtain t' where "f n t = Inr t'" "I (Suc n) t'"
    by auto
  with t(1) show ?case by (simp add: fold_err_append)
qed

lemma fold_err_upt_rule:
  assumes "fold_err f [0..<n] s = Inr s'"
    and "I 0 s"
    and "\<And>i t t'. i < n \<Longrightarrow> I i t \<Longrightarrow> f i t = Inr t' \<Longrightarrow> I (Suc i) t'"
  shows "I n s'"
  using assms(1,3)
proof (induction n arbitrary: s')
  case 0
  with assms(2) show ?case by simp
next
  case (Suc n)
  from Suc.prems(1) obtain t where t: "fold_err f [0..<n] s = Inr t" "f n t = Inr s'"
    by (auto simp: fold_err_append split: sum.splits)
  have "I n t" using Suc.IH [OF t(1)] Suc.prems(2) by simp
  with t(2) Suc.prems(2) [of n t s'] show ?case by simp
qed

lemma fold_unchanged: "fold (\<lambda>x s. s) xs s = s"
  by (induction xs) simp_all

lemma all_less_2: "(\<forall>i < (2::nat). P i) \<longleftrightarrow> P 0 \<and> P 1"
  by (auto simp: less_2_cases_iff)

lemma all_less_4: "(\<forall>i < (4::nat). P i) \<longleftrightarrow> P 0 \<and> P 1 \<and> P 2 \<and> P 3"
proof -
  have "i < 4 \<longleftrightarrow> i = 0 \<or> i = 1 \<or> i = 2 \<or> i = 3" for i :: nat by arith
  then show ?thesis by auto
qed

lemma upt_2: "[0..<2] = [0, 1]"
  by (simp add: upt_rec)

lemma upt_4: "[0..<4] = [0, 1, 2, 3]"
  by (simp add: upt_rec)

subsection \<open>The small problem\<close>

lemma small_problem_fields [simp]:
  "equation_name small_problem = ''ep''" "discretization small_problem = ''dfem''"
  "is_eigen_problem small_problem" "\<not> do_nda small_problem"
  "n_group small_problem = 2" "n_material small_problem = 2"
  "n_total_vars small_problem = 4" "n_dir small_problem = 2"
  "dofs_per_cell small_problem = 1" "n_q small_problem = 1"
  "wi small_problem = [1, 3]"
  "local_cells small_problem = two_cells" "is_cell_at_bd small_problem = [True, True]"
  "get_dof_indices small_problem = (\<lambda>c. [c])"
  "sys_mats small_problem = [0, 1, 2, 3]" "sys_aflxes small_problem = [0, 1, 2, 3]"
  "sys_rhses small_problem = [4, 5, 6, 7]" "sys_fixed_rhses small_problem = [8, 9, 10, 11]"
  "aflxes_proc small_problem = [[], [], [], []]" "ho_sflxes_proc small_problem = [[], []]"
  "mat_store small_problem = (\<lambda>a. [])"
  "vec_store small_problem = (\<lambda>a. if a < 4 then [1, 1] else [real a, 2])"
  by (simp_all add: small_problem_def)

lemma small_problem_index [simp]:
  "get_component_index small_problem 0 0 = 0"
  "get_component_index small_problem 1 0 = 1"
  "get_component_index small_problem 0 1 = 2"
  "get_component_index small_problem 1 1 = 3"
  "get_component_index small_problem (Suc 0) 0 = 1"
  "get_component_index small_problem 0 (Suc 0) = 2"
  "get_component_index small_problem (Suc 0) (Suc 0) = 3"
  by (simp_all add: get_component_index_def small_problem_def component_order_def
      empty_index_maps_def)

lemma small_problem_inverse [simp]:
  "get_component_direction small_problem 0 = 0" "get_component_group small_problem 0 = 0"
  "get_component_direction small_problem 1 = 1" "get_component_group small_problem 1 = 0"
  "get_component_direction small_problem 2 = 0" "get_component_group small_problem 2 = 1"
  "get_component_direction small_problem 3 = 1" "get_component_group small_problem 3 = 1"
  "get_component_direction small_problem (Suc 0) = 1"
  "get_component_group small_problem (Suc 0) = 0"
  by (simp_all add: get_component_direction_def get_component_group_def small_problem_def
      component_order_def empty_index_maps_def)

lemma get_component_vec_store [simp]:
  "get_component_group (st\<lparr>vec_store := X\<rparr>) k = get_component_group st k"
  "get_component_direction (st\<lparr>vec_store := X\<rparr>) k = get_component_direction st k"
  "get_component_index (st\<lparr>vec_store := X\<rparr>) d g = get_component_index st d g"
  by (simp_all add: get_component_group_def get_component_direction_def
      get_component_index_def)

lemma small_problem_tables: "fission_tables_ok small_problem"
  by (simp add: fission_tables_ok_def small_problem_def fissile_def ksi_nusigf_per_ster_def
      numeral_2_eq_2 All_less_Suc)

lemma get_component_mat_store [simp]:
  "get_component_group (st\<lparr>mat_store := M\<rparr>) k = get_component_group st k"
  "get_component_direction (st\<lparr>mat_store := M\<rparr>) k = get_component_direction st k"
  "get_component_index (st\<lparr>mat_store := M\<rparr>) d g = get_component_index st d g"
  by (simp_all add: get_component_group_def get_component_direction_def
      get_component_index_def)

lemma boundary_bilinear_form_base [simp]:
  "boundary_bilinear_form EquationBase_integrators c g d m = m"
proof -
  have "(\<lambda>fn m. if at_boundary (faces c ! fn)
           then integrate_boundary_bilinear_form EquationBase_integrators c fn m g d else m) =
        (\<lambda>fn m. m)"
    by (intro ext) (simp add: EquationBase_integrators_def)
  then show ?thesis by (simp add: boundary_bilinear_form_def fold_unchanged)
qed

lemma small_problem_volume:
  "\<exists>st1. assemble_volume_boundary_bilinear_form EquationBase_integrators
           (small_problem\<lparr>equation_name := name, discretization := disc\<rparr>) = Inr st1"
  by (simp add: assemble_volume_boundary_bilinear_form_def two_cells_def left_cell_def
      right_cell_def upt_4 upt_2 volume_component_def volume_cell_def mat_set_zero_def
      mat_add_def Let_def)

subsection \<open>Index maps\<close>

lemma init_cmap_notin:
  "key \<notin> set keys \<Longrightarrow>
   component_index_map (initialize_component_index keys ind m) key = component_index_map m key"
  by (induction keys arbitrary: ind m) auto

lemma init_imap_below:
  "j < ind \<Longrightarrow>
   inv_component_map (initialize_component_index keys ind m) j = inv_component_map m j"
  by (induction keys arbitrary: ind m) auto

lemma init_cmap_nth:
  "distinct keys \<Longrightarrow> i < length keys \<Longrightarrow>
   component_index_map (initialize_component_index keys ind m) (keys ! i) = Some (ind + i)"
proof (induction keys arbitrary: ind m i)
  case Nil
  then show ?case by simp
next
  case (Cons key keys)
  show ?case
  proof (cases i)
    case 0
    with Cons.prems show ?thesis by (simp add: init_cmap_notin)
  next
    case (Suc j)
    with Cons.prems Cons.IH [of j "Suc ind"] show ?thesis by simp
  qed
qed

lemma init_imap_nth:
  "i < length keys \<Longrightarrow>
   inv_component_map (initialize_component_index keys ind m) (ind + i) = Some (keys ! i)"
proof (induction keys arbitrary: ind m i)
  case Nil
  then show ?case by simp
next
  case (Cons key keys)
  show ?case
  proof (cases i)
    case 0
    then show ?thesis by (simp add: init_imap_below)
  next
    case (Suc j)
    with Cons.prems Cons.IH [of j "Suc ind"] show ?thesis by simp
  qed
qed

text \<open>
  Claim C1. When the two tables are built in lockstep from an enumeration of the
  (direction, group) pairs with \<open>d < nd\<close> and \<open>g < ng\<close>, every such pair is mapped by
  \<^verbatim>\<open>get_component_index\<close> to a component index \<open>k < nd * ng\<close> with
  \<^verbatim>\<open>get_component_direction(k) = d\<close> and \<^verbatim>\<open>get_component_group(k) = g\<close>, and
  every \<open>k < nd * ng\<close> is the component index of its direction and group: the two maps
  are inverses of each other on all valid inputs.
\<close>

theorem index_map_bijective:
  assumes dist: "distinct keys"
    and keys: "set keys = {0..<nd} \<times> {0..<ng}"
    and cm: "component_index st =
               component_index_map (initialize_component_index keys 0 empty_index_maps)"
    and im: "inverse_component_index st =
               inv_component_map (initialize_component_index keys 0 empty_index_maps)"
  shows "(\<forall>d g. d < nd \<and> g < ng \<longrightarrow>
            get_component_index st d g < nd * ng \<and>
            get_component_direction st (get_component_index st d g) = d \<and>
            get_component_group st (get_component_index st d g) = g) \<and>
         (\<forall>k. k < nd * ng \<longrightarrow>
            get_component_direction st k < nd \<and> get_component_group st k < ng \<and>
            get_component_index st (get_component_direction st k) (get_component_group st k) = k)"
proof -
  have len: "length keys = nd * ng"
    using distinct_card [OF dist] keys by simp
  have fwd: "get_component_index st d g < nd * ng \<and>
            get_component_direction st (get_component_index st d g) = d \<and>
            get_component_group st (get_component_index st d g) = g"
    if "d < nd" "g < ng" for d g
  proof -
    from that keys have "(d, g) \<in> set keys" by simp
    then obtain i where i: "i < length keys" "keys ! i = (d, g)"
      by (auto simp: in_set_conv_nth)
    from init_cmap_nth [OF dist i(1), of 0 empty_index_maps] i(2) cm
    have "get_component_index st d g = i"
      by (simp add: get_component_index_def)
    moreover from init_imap_nth [OF i(1), of 0 empty_index_maps] i(2) im
    have "inverse_component_index st i = Some (d, g)" by simp
    ultimately show ?thesis
      using i(1) len by (simp add: get_component_direction_def get_component_group_def)
  qed
  have bwd: "get_component_direction st k < nd \<and> get_component_group st k < ng \<and>
            get_component_index st (get_component_direction st k) (get_component_group st k) = k"
    if "k < nd * ng" for k
  proof -
    from that len have k: "k < length keys" by simp
    then have "keys ! k \<in> set keys" by simp
    with keys have rng: "fst (keys ! k) < nd" "snd (keys ! k) < ng" by auto
    from init_imap_nth [OF k, of 0 empty_index_maps] im
    have inv: "inverse_component_index st k = Some (keys ! k)" by simp
    from init_cmap_nth [OF dist k, of 0 empty_index_maps] cm
    have "component_index st (fst (keys ! k), snd (keys ! k)) = Some k" by simp
    with inv rng show ?thesis
      by (simp add: get_component_direction_def get_component_group_def
          get_component_index_def)
  qed
  from fwd bwd show ?thesis by blast
qed

theorem index_map_bijective_witness:
  "get_component_direction small_problem (get_component_index small_problem 1 0) = 1 \<and>
   get_component_group small_problem (get_component_index small_problem 1 0) = 0 \<and>
   get_component_index small_problem (get_component_direction small_problem 2)
     (get_component_group small_problem 2) = 2"
proof -
  have d: "distinct component_order" by (simp add: component_order_def)
  have s: "set component_order = {0..<2} \<times> {0..<2}"
    by (auto simp: component_order_def)
  have c: "component_index small_problem =
      component_index_map (initialize_component_index component_order 0 empty_index_maps)"
    by (simp add: small_problem_def)
  have i: "inverse_component_index small_problem =
      inv_component_map (initialize_component_index component_order 0 empty_index_maps)"
    by (simp add: small_problem_def)
  have r: "(1::nat) < 2 \<and> (0::nat) < 2" "(2::nat) < 2 * 2" by simp_all
  from index_map_bijective [OF d s c i] r show ?thesis by blast
qed

subsection \<open>Interface terms\<close>

lemma interface_face_step:
  "interface_face hooks k c fn (st\<lparr>mat_store := M\<rparr>) =
     st\<lparr>mat_store := M(sys_mats st ! k := M (sys_mats st ! k) @
          (if target_face c fn then interface_blocks hooks st k (c, fn) else []))\<rparr>"
  by (simp add: interface_face_def interface_blocks_def mat_add_def Let_def
      split: prod.splits)

lemma interface_faces_loop:
  "fold (interface_face hooks k c) fns (st\<lparr>mat_store := M\<rparr>) =
     st\<lparr>mat_store := M(sys_mats st ! k := M (sys_mats st ! k) @
          concat (map (interface_blocks hooks st k)
                    (map (Pair c) (filter (target_face c) fns))))\<rparr>"
proof (induction fns arbitrary: M)
  case Nil
  show ?case by simp
next
  case (Cons fn fns)
  let ?a = "sys_mats st ! k"
  let ?head = "if target_face c fn then interface_blocks hooks st k (c, fn) else []"
  let ?tail = "concat (map (interface_blocks hooks st k)
                 (map (Pair c) (filter (target_face c) fns)))"
  let ?M = "M(?a := M ?a @ ?head)"
  have ts: "concat (map (interface_blocks hooks st k)
               (map (Pair c) (filter (target_face c) (fn # fns)))) = ?head @ ?tail"
    by simp
  have up: "?M(?a := ?M ?a @ ?tail) = M(?a := M ?a @ ?head @ ?tail)"
    by (simp add: fun_eq_iff)
  have "fold (interface_face hooks k c) (fn # fns) (st\<lparr>mat_store := M\<rparr>) =
      fold (interface_face hooks k c) fns (st\<lparr>mat_store := ?M\<rparr>)"
    by (simp only: fold_simps interface_face_step o_apply)
  also have "\<dots> = st\<lparr>mat_store := ?M(?a := ?M ?a @ ?tail)\<rparr>"
    by (rule Cons.IH)
  finally show ?case unfolding up ts .
qed

lemma interface_cell_step:
  "interface_cell hooks k c (st\<lparr>mat_store := M\<rparr>) =
     st\<lparr>mat_store := M(sys_mats st ! k := M (sys_mats st ! k) @
          concat (map (interface_blocks hooks st k)
                    (map (Pair c) (filter (target_face c) [0..<length (faces c)]))))\<rparr>"
  by (simp add: interface_cell_def interface_faces_loop)

lemma interface_cells_loop:
  "fold (interface_cell hooks k) cells (st\<lparr>mat_store := M\<rparr>) =
     st\<lparr>mat_store := M(sys_mats st ! k := M (sys_mats st ! k) @
          concat (map (interface_blocks hooks st k) (target_sides cells)))\<rparr>"
proof (induction cells arbitrary: M)
  case Nil
  show ?case by (simp add: target_sides_def)
next
  case (Cons c cells)
  let ?a = "sys_mats st ! k"
  let ?head = "concat (map (interface_blocks hooks st k)
                 (map (Pair c) (filter (target_face c) [0..<length (faces c)])))"
  let ?tail = "concat (map (interface_blocks hooks st k) (target_sides cells))"
  let ?M = "M(?a := M ?a @ ?head)"
  have ts: "concat (map (interface_blocks hooks st k) (target_sides (c # cells))) =
      ?head @ ?tail"
    by (simp add: target_sides_def)
  have up: "?M(?a := ?M ?a @ ?tail) = M(?a := M ?a @ ?head @ ?tail)"
    by (simp add: fun_eq_iff)
  have "fold (interface_cell hooks k) (c # cells) (st\<lparr>mat_store := M\<rparr>) =
      fold (interface_cell hooks k) cells (st\<lparr>mat_store := ?M\<rparr>)"
    by (simp only: fold_simps interface_cell_step o_apply)
  also have "\<dots> = st\<lparr>mat_store := ?M(?a := ?M ?a @ ?tail)\<rparr>"
    by (rule Cons.IH)
  finally show ?case unfolding up ts .
qed

lemma interface_component_step:
  assumes "interface_component hooks k (st\<lparr>mat_store := M\<rparr>) = Inr t"
  shows "k < length (sys_mats st) \<and>
         t = st\<lparr>mat_store := M(sys_mats st ! k := M (sys_mats st ! k) @
               concat (map (interface_blocks hooks st k) (target_sides (local_cells st))))\<rparr>"
proof -
  from assms have k: "k < length (sys_mats st)"
    by (simp add: interface_component_def split: if_splits)
  with assms have "t = fold (interface_cell hooks k) (local_cells st) (st\<lparr>mat_store := M\<rparr>)"
    by (simp add: interface_component_def)
  with k show ?thesis by (simp only: interface_cells_loop simp_thms)
qed

lemma assemble_interface_blocks:
  assumes res: "assemble_interface_bilinear_form hooks st = Inr st'"
    and dist: "distinct (sys_mats st)"
    and k: "k < n_total_vars st"
  shows "mat_store st' (sys_mats st ! k) =
           mat_store st (sys_mats st ! k) @
           concat (map (interface_blocks hooks st k) (target_sides (local_cells st)))"
proof -
  let ?blocks = "\<lambda>k. concat (map (interface_blocks hooks st k) (target_sides (local_cells st)))"
  let ?I = "\<lambda>i t. \<exists>M. t = st\<lparr>mat_store := M\<rparr> \<and>
              (\<forall>j < length (sys_mats st).
                 M (sys_mats st ! j) =
                   mat_store st (sys_mats st ! j) @ (if j < i then ?blocks j else [])) \<and>
              (\<forall>j < i. j < length (sys_mats st))"
  have "?I (n_total_vars st) st'"
  proof (rule fold_err_upt_rule [of _ _ _ _ ?I,
        OF res [unfolded assemble_interface_bilinear_form_def]])
    have "st = st\<lparr>mat_store := mat_store st\<rparr>" by simp
    then show "?I 0 st" by (intro exI [of _ "mat_store st"]) simp
  next
    fix i t t'
    assume "i < n_total_vars st" and t: "?I i t"
      and step: "interface_component hooks i t = Inr t'"
    from t obtain M where M: "t = st\<lparr>mat_store := M\<rparr>"
      "\<forall>j < length (sys_mats st).
         M (sys_mats st ! j) =
           mat_store st (sys_mats st ! j) @ (if j < i then ?blocks j else [])"
      "\<forall>j < i. j < length (sys_mats st)" by blast
    from step M(1) have "interface_component hooks i (st\<lparr>mat_store := M\<rparr>) = Inr t'" by simp
    from interface_component_step [OF this]
    have i: "i < length (sys_mats st)"
      and t': "t' = st\<lparr>mat_store := M(sys_mats st ! i := M (sys_mats st ! i) @ ?blocks i)\<rparr>"
      by simp_all
    let ?M = "M(sys_mats st ! i := M (sys_mats st ! i) @ ?blocks i)"
    have a: "\<forall>j < length (sys_mats st).
         ?M (sys_mats st ! j) =
           mat_store st (sys_mats st ! j) @ (if j < Suc i then ?blocks j else [])"
    proof (intro allI impI)
      fix j assume j: "j < length (sys_mats st)"
      show "?M (sys_mats st ! j) =
           mat_store st (sys_mats st ! j) @ (if j < Suc i then ?blocks j else [])"
      proof (cases "j = i")
        case True
        with M(2) i show ?thesis by simp
      next
        case False
        with dist i j have "sys_mats st ! j \<noteq> sys_mats st ! i"
          by (simp add: nth_eq_iff_index_eq)
        with M(2) j False show ?thesis by (simp add: less_Suc_eq)
      qed
    qed
    from M(3) i have b: "\<forall>j < Suc i. j < length (sys_mats st)"
      by (simp add: less_Suc_eq)
    from t' a b show "?I (Suc i) t'" by blast
  qed
  then obtain M where M: "st' = st\<lparr>mat_store := M\<rparr>"
    "\<forall>j < length (sys_mats st).
       M (sys_mats st ! j) =
         mat_store st (sys_mats st ! j) @ (if j < n_total_vars st then ?blocks j else [])"
    "\<forall>j < n_total_vars st. j < length (sys_mats st)" by blast
  from M(3) k have "k < length (sys_mats st)" by simp
  with M(2) k have "M (sys_mats st ! k) = mat_store st (sys_mats st ! k) @ ?blocks k" by simp
  with M(1) show ?thesis by simp
qed

lemma assemble_interface_returns:
  assumes "n_total_vars st \<le> length (sys_mats st)"
  shows "\<exists>st'. assemble_interface_bilinear_form hooks st = Inr st'"
proof -
  let ?I = "\<lambda>(i::nat) t. \<exists>M. t = st\<lparr>mat_store := M\<rparr>"
  have "\<exists>s'. fold_err (interface_component hooks) [0..<n_total_vars st] st = Inr s' \<and>
          ?I (n_total_vars st) s'"
  proof (rule fold_err_upt_total [of ?I])
    have "st = st\<lparr>mat_store := mat_store st\<rparr>" by simp
    then show "?I 0 st" by blast
  next
    fix i t assume i: "i < n_total_vars st" and "?I i t"
    then obtain M where M: "t = st\<lparr>mat_store := M\<rparr>" by blast
    from i assms have "i < length (sys_mats st)" by simp
    with M have "interface_component hooks i t =
        Inr (fold (interface_cell hooks i) (local_cells st) (st\<lparr>mat_store := M\<rparr>))"
      by (simp add: interface_component_def)
    then show "\<exists>t'. interface_component hooks i t = Inr t' \<and> ?I (Suc i) t'"
      by (simp only: interface_cells_loop) blast
  qed
  then show ?thesis by (auto simp: assemble_interface_bilinear_form_def)
qed

lemma count_face_number:
  "length (filter (\<lambda>i. i = fn) (filter Q [0..<n])) = (if fn < n \<and> Q fn then 1 else 0)"
  by (induction n) auto

lemma count_sides_of_cell:
  "length (filter (\<lambda>side. cell_id (fst side) = a \<and> snd side = fn) (map (Pair c) xs)) =
     (if cell_id c = a then length (filter (\<lambda>i. i = fn) xs) else 0)"
  by (induction xs) auto

lemma times_assembled_Cons:
  "times_assembled a fn (c # cells) =
     (if cell_id c = a \<and> fn < length (faces c) \<and> target_face c fn then 1 else 0) +
     times_assembled a fn cells"
proof -
  let ?P = "\<lambda>side :: cell \<times> nat. cell_id (fst side) = a \<and> snd side = fn"
  let ?xs = "filter (target_face c) [0..<length (faces c)]"
  have "target_sides (c # cells) = map (Pair c) ?xs @ target_sides cells"
    by (simp add: target_sides_def)
  then have "times_assembled a fn (c # cells) =
      length (filter ?P (map (Pair c) ?xs)) + times_assembled a fn cells"
    by (simp only: times_assembled_def filter_append length_append)
  also have "length (filter ?P (map (Pair c) ?xs)) =
      (if cell_id c = a \<and> fn < length (faces c) \<and> target_face c fn then 1 else 0)"
    by (simp only: count_sides_of_cell count_face_number) simp
  finally show ?thesis .
qed

lemma times_assembled_absent:
  "a \<notin> cell_id ` set cells \<Longrightarrow> times_assembled a fn cells = 0"
proof (induction cells)
  case Nil
  show ?case by (simp add: times_assembled_def target_sides_def)
next
  case (Cons c cells)
  then show ?case by (simp add: times_assembled_Cons)
qed

lemma times_assembled_distinct:
  "distinct (map cell_id cells) \<Longrightarrow> c \<in> set cells \<Longrightarrow> fn < length (faces c) \<Longrightarrow>
   times_assembled (cell_id c) fn cells = (if target_face c fn then 1 else 0)"
proof (induction cells)
  case Nil
  then show ?case by simp
next
  case (Cons c' cells)
  show ?case
  proof (cases "c = c'")
    case True
    with Cons.prems have "cell_id c \<notin> cell_id ` set cells" by simp
    with True Cons.prems show ?thesis
      by (simp add: times_assembled_Cons times_assembled_absent)
  next
    case False
    with Cons.prems have c: "c \<in> set cells" by simp
    with Cons.prems have "cell_id c' \<noteq> cell_id c" by auto
    with Cons.IH Cons.prems c show ?thesis by (simp add: times_assembled_Cons)
  qed
qed

text \<open>
  Claim C2. Take the local cells of all processes together, a mesh whose cells have
  distinct identifiers and in which the two sides of an interior face name each other.
  Let the face \<open>fn\<close> of a cell \<open>c\<close> have the neighbour \<open>b\<close>, where it is the face
  \<open>m\<close>. Then \<^verbatim>\<open>assemble_interface_bilinear_form\<close> takes this face as a target face
  exactly once over the whole mesh, counting both of its sides. And on every process
  whose matrix pointers are distinct, one per component, the assembly returns, and what
  it adds to the matrix of a component \<open>k\<close> is the four blocks of each target face of
  the local cells, once each and in order, and nothing else.
\<close>

theorem interface_no_double_count:
  assumes mesh: "mesh_ok (concat (map local_cells procs))"
    and c: "c \<in> set (concat (map local_cells procs))"
    and fn: "fn < length (faces c)"
    and nb: "faces c ! fn = Neighbor b m"
  shows "times_assembled (cell_id c) fn (concat (map local_cells procs)) +
         times_assembled b m (concat (map local_cells procs)) = 1 \<and>
         (\<forall>st \<in> set procs.
            distinct (sys_mats st) \<and> n_total_vars st \<le> length (sys_mats st) \<longrightarrow>
            (\<exists>st'. assemble_interface_bilinear_form hooks st = Inr st' \<and>
               (\<forall>k < n_total_vars st.
                  mat_store st' (sys_mats st ! k) =
                    mat_store st (sys_mats st ! k) @
                    concat (map (interface_blocks hooks st k)
                              (target_sides (local_cells st))))))"
proof
  let ?mesh = "concat (map local_cells procs)"
  from mesh have d: "distinct (map cell_id ?mesh)" by (simp add: mesh_ok_def)
  from mesh c fn nb have ne: "b \<noteq> cell_id c"
    unfolding mesh_ok_def by blast
  from mesh c fn nb obtain c' where c': "c' \<in> set ?mesh" "cell_id c' = b"
    "m < length (faces c')" "faces c' ! m = Neighbor (cell_id c) fn"
    unfolding mesh_ok_def by blast
  from times_assembled_distinct [OF d c fn] nb
  have 1: "times_assembled (cell_id c) fn ?mesh = (if b < cell_id c then 1 else 0)"
    by (simp add: target_face_def)
  from times_assembled_distinct [OF d c'(1) c'(3)] c'(2,4)
  have 2: "times_assembled b m ?mesh = (if cell_id c < b then 1 else 0)"
    by (simp add: target_face_def)
  from 1 2 ne show "times_assembled (cell_id c) fn ?mesh + times_assembled b m ?mesh = 1"
    by auto
next
  show "\<forall>st \<in> set procs.
            distinct (sys_mats st) \<and> n_total_vars st \<le> length (sys_mats st) \<longrightarrow>
            (\<exists>st'. assemble_interface_bilinear_form hooks st = Inr st' \<and>
               (\<forall>k < n_total_vars st.
                  mat_store st' (sys_mats st ! k) =
                    mat_store st (sys_mats st ! k) @
                    concat (map (interface_blocks hooks st k)
                              (target_sides (local_cells st)))))"
  proof (intro ballI impI)
    fix st :: equation
    assume "distinct (sys_mats st) \<and> n_total_vars st \<le> length (sys_mats st)"
    then have d: "distinct (sys_mats st)" and n: "n_total_vars st \<le> length (sys_mats st)"
      by simp_all
    from assemble_interface_returns [OF n] obtain st'
      where r: "assemble_interface_bilinear_form hooks st = Inr st'" ..
    from assemble_interface_blocks [OF r d]
    have "\<forall>k < n_total_vars st.
        mat_store st' (sys_mats st ! k) =
          mat_store st (sys_mats st ! k) @
          concat (map (interface_blocks hooks st k) (target_sides (local_cells st)))"
      by blast
    with r show "\<exists>st'. assemble_interface_bilinear_form hooks st = Inr st' \<and>
        (\<forall>k < n_total_vars st.
           mat_store st' (sys_mats st ! k) =
             mat_store st (sys_mats st ! k) @
             concat (map (interface_blocks hooks st k) (target_sides (local_cells st))))"
      by blast
  qed
qed

lemma two_processes_mesh: "concat (map local_cells two_processes) = two_cells"
  by (simp add: two_processes_def two_cells_def)

lemma two_cells_mesh_ok: "mesh_ok two_cells"
proof -
  have l: "\<forall>fn < length (faces left_cell). \<forall>b m. faces left_cell ! fn = Neighbor b m \<longrightarrow>
      b \<noteq> cell_id left_cell \<and> b = cell_id right_cell \<and> m < length (faces right_cell) \<and>
      faces right_cell ! m = Neighbor (cell_id left_cell) fn"
    by (simp add: left_cell_def right_cell_def All_less_Suc)
  have r: "\<forall>fn < length (faces right_cell). \<forall>b m. faces right_cell ! fn = Neighbor b m \<longrightarrow>
      b \<noteq> cell_id right_cell \<and> b = cell_id left_cell \<and> m < length (faces left_cell) \<and>
      faces left_cell ! m = Neighbor (cell_id right_cell) fn"
    by (simp add: left_cell_def right_cell_def All_less_Suc)
  have d: "distinct (map cell_id two_cells)"
    by (simp add: two_cells_def left_cell_def right_cell_def)
  have s: "set two_cells = {left_cell, right_cell}" by (simp add: two_cells_def)
  from l r d show ?thesis unfolding mesh_ok_def s by blast
qed

lemma right_process_blocks:
  "concat (map (interface_blocks EquationBase_integrators (two_processes ! 1) 2)
     (target_sides (local_cells (two_processes ! 1)))) =
   [([1], [1], [[0]]), ([1], [0], [[0]]), ([0], [1], [[0]]), ([0], [0], [[0]])]"
  by (simp add: two_processes_def target_sides_def target_face_def right_cell_def
      interface_blocks_def EquationBase_integrators_def zero_matrix_def Let_def)

theorem interface_no_double_count_witness:
  "times_assembled 0 1 two_cells + times_assembled 1 0 two_cells = 1 \<and>
   (\<exists>st'. assemble_interface_bilinear_form EquationBase_integrators (two_processes ! 1) =
      Inr st' \<and>
      mat_store st' 2 =
        [([1], [1], [[0]]), ([1], [0], [[0]]), ([0], [1], [[0]]), ([0], [0], [[0]])])"
proof -
  let ?h = EquationBase_integrators
  let ?st = "two_processes ! 1"
  have m: "mesh_ok (concat (map local_cells two_processes))"
    by (simp only: two_processes_mesh two_cells_mesh_ok)
  have c: "left_cell \<in> set (concat (map local_cells two_processes))"
    by (simp add: two_processes_mesh two_cells_def)
  have f: "1 < length (faces left_cell)" by (simp add: left_cell_def)
  have n: "faces left_cell ! 1 = Neighbor 1 0" by (simp add: left_cell_def)
  note T = interface_no_double_count [OF m c f n, of ?h, unfolded two_processes_mesh]
  from T have a: "times_assembled 0 1 two_cells + times_assembled 1 0 two_cells = 1"
    by (simp add: left_cell_def)
  have p: "?st \<in> set two_processes" by (simp add: two_processes_def)
  have d: "distinct (sys_mats ?st) \<and> n_total_vars ?st \<le> length (sys_mats ?st)"
    by (simp add: two_processes_def)
  have e: "(2::nat) < n_total_vars ?st" "sys_mats ?st ! 2 = 2" "mat_store ?st 2 = []"
    by (simp_all add: two_processes_def)
  from T p d obtain st' where r: "assemble_interface_bilinear_form ?h ?st = Inr st'"
    and b: "\<forall>k < n_total_vars ?st.
      mat_store st' (sys_mats ?st ! k) =
        mat_store ?st (sys_mats ?st ! k) @
        concat (map (interface_blocks ?h ?st k) (target_sides (local_cells ?st)))"
    by blast
  from b e(1) have "mat_store st' (sys_mats ?st ! 2) =
      mat_store ?st (sys_mats ?st ! 2) @
      concat (map (interface_blocks ?h ?st 2) (target_sides (local_cells ?st)))"
    by blast
  with e(2,3) right_process_blocks
  have "mat_store st' 2 =
      [([1], [1], [[0]]), ([1], [0], [[0]]), ([0], [1], [[0]]), ([0], [0], [[0]])]"
    by simp
  with a r show ?thesis by blast
qed

subsection \<open>Scaling the fission transfer matrices\<close>

lemma scale_row:
  assumes sh: "shape_ok (n_group st) tmp"
    and gin: "gin < n_group st"
    and t1: "n_group st \<le> length (ksi_nusigf_per_ster st m)"
    and t2: "\<forall>gin < n_group st. n_group st \<le> length (ksi_nusigf_per_ster st m ! gin)"
  shows "\<exists>tmp'. fold_err (scale_entry st k_eff m gin) [0..<n_group st] tmp = Inr tmp' \<and>
           shape_ok (n_group st) tmp' \<and>
           (\<forall>g < n_group st. tmp' ! gin ! g = ksi_nusigf_per_ster st m ! gin ! g / k_eff) \<and>
           (\<forall>r < n_group st. r \<noteq> gin \<longrightarrow> tmp' ! r = tmp ! r)"
proof -
  let ?t = "ksi_nusigf_per_ster st m"
  let ?I = "\<lambda>j tmp'. shape_ok (n_group st) tmp' \<and>
           (\<forall>g < j. tmp' ! gin ! g = ?t ! gin ! g / k_eff) \<and>
           (\<forall>r < n_group st. r \<noteq> gin \<longrightarrow> tmp' ! r = tmp ! r)"
  have "\<exists>s'. fold_err (scale_entry st k_eff m gin) [0..<n_group st] tmp = Inr s' \<and>
          ?I (n_group st) s'"
  proof (rule fold_err_upt_total [of ?I])
    show "?I 0 tmp" using sh by simp
  next
    fix i u assume i: "i < n_group st" and u: "?I i u"
    from i gin t1 t2 have rng: "gin < length ?t" "i < length (?t ! gin)"
      by (auto simp: less_le_trans)
    let ?u = "u[gin := (u ! gin)[i := ?t ! gin ! i / k_eff]]"
    from rng have "scale_entry st k_eff m gin i u = Inr ?u"
      by (simp add: scale_entry_def)
    moreover from u i gin have "?I (Suc i) ?u"
      by (auto simp: shape_ok_def nth_list_update less_Suc_eq)
    ultimately show "\<exists>t'. scale_entry st k_eff m gin i u = Inr t' \<and> ?I (Suc i) t'"
      by blast
  qed
  then show ?thesis by blast
qed

lemma scaled_matrix_fissile:
  assumes fis: "fissile st m"
    and t1: "n_group st \<le> length (ksi_nusigf_per_ster st m)"
    and t2: "\<forall>gin < n_group st. n_group st \<le> length (ksi_nusigf_per_ster st m ! gin)"
  shows "\<exists>tmp. scaled_matrix st k_eff m = Inr tmp \<and> shape_ok (n_group st) tmp \<and>
           (\<forall>gin < n_group st. \<forall>g < n_group st.
              tmp ! gin ! g = ksi_nusigf_per_ster st m ! gin ! g / k_eff)"
proof -
  let ?n = "n_group st"
  let ?t = "ksi_nusigf_per_ster st m"
  let ?I = "\<lambda>j tmp. shape_ok ?n tmp \<and>
             (\<forall>gin < j. \<forall>g < ?n. tmp ! gin ! g = ?t ! gin ! g / k_eff)"
  have "\<exists>s'. fold_err (\<lambda>gin. fold_err (scale_entry st k_eff m gin) [0..<?n]) [0..<?n]
               (replicate ?n (replicate ?n 0)) = Inr s' \<and> ?I ?n s'"
  proof (rule fold_err_upt_total [of ?I])
    show "?I 0 (replicate ?n (replicate ?n 0))" by (simp add: shape_ok_def)
  next
    fix i u assume i: "i < ?n" and u: "?I i u"
    from scale_row [OF _ i t1 t2, of u k_eff] u
    obtain u' where u': "fold_err (scale_entry st k_eff m i) [0..<?n] u = Inr u'"
      "shape_ok ?n u'" "\<forall>g < ?n. u' ! i ! g = ?t ! i ! g / k_eff"
      "\<forall>r < ?n. r \<noteq> i \<longrightarrow> u' ! r = u ! r"
      by blast
    have "?I (Suc i) u'"
    proof (intro conjI allI impI)
      show "shape_ok ?n u'" by fact
    next
      fix gin g assume "gin < Suc i" "g < ?n"
      with u u' i show "u' ! gin ! g = ?t ! gin ! g / k_eff"
        by (cases "gin = i") auto
    qed
    with u'(1) show "\<exists>t'. fold_err (scale_entry st k_eff m i) [0..<?n] u = Inr t' \<and> ?I (Suc i) t'"
      by blast
  qed
  with fis show ?thesis by (simp add: scaled_matrix_def Let_def)
qed

lemma scaled_matrix_not_fissile:
  "\<not> fissile st m \<Longrightarrow>
   scaled_matrix st k_eff m = Inr (replicate (n_group st) (replicate (n_group st) 0))"
  by (simp add: scaled_matrix_def Let_def)

lemma scale_all_materials:
  assumes ok: "fission_tables_ok st" and len: "length scaled = n_material st"
  shows "\<exists>scaled'. fold_err (scale_material st k_eff) [0..<n_material st] scaled = Inr scaled' \<and>
           length scaled' = n_material st \<and>
           (\<forall>m < n_material st. scaled_matrix st k_eff m = Inr (scaled' ! m))"
proof -
  let ?I = "\<lambda>j s. length s = n_material st \<and> (\<forall>m < j. scaled_matrix st k_eff m = Inr (s ! m))"
  have "\<exists>s'. fold_err (scale_material st k_eff) [0..<n_material st] scaled = Inr s' \<and>
          ?I (n_material st) s'"
  proof (rule fold_err_upt_total [of ?I])
    show "?I 0 scaled" using len by simp
  next
    fix i u assume i: "i < n_material st" and u: "?I i u"
    have "\<exists>tmp. scaled_matrix st k_eff i = Inr tmp"
    proof (cases "fissile st i")
      case True
      with ok i scaled_matrix_fissile [of st i k_eff] show ?thesis
        by (auto simp: fission_tables_ok_def)
    next
      case False
      then show ?thesis by (simp add: scaled_matrix_not_fissile)
    qed
    then obtain tmp where tmp: "scaled_matrix st k_eff i = Inr tmp" ..
    then have "scale_material st k_eff i u = Inr (u[i := tmp])"
      by (simp add: scale_material_def)
    moreover from u i tmp have "?I (Suc i) (u[i := tmp])"
      by (auto simp: nth_list_update less_Suc_eq)
    ultimately show "\<exists>t'. scale_material st k_eff i u = Inr t' \<and> ?I (Suc i) t'" by blast
  qed
  then show ?thesis by blast
qed

lemma scale_fiss_transfer_matrices_result:
  assumes eig: "is_eigen_problem st" and ok: "fission_tables_ok st"
  shows "\<exists>scaled. scale_fiss_transfer_matrices k_eff st =
             Inr (st\<lparr>scaled_fiss_transfer_per_ster := scaled\<rparr>) \<and>
           length scaled = n_material st \<and>
           (\<forall>m < n_material st. scaled_matrix st k_eff m = Inr (scaled ! m))"
proof -
  have "length (resize (n_material st) [] (scaled_fiss_transfer_per_ster st)) = n_material st"
    by (simp add: resize_def)
  from scale_all_materials [OF ok this, of k_eff] eig show ?thesis
    by (auto simp: scale_fiss_transfer_matrices_def)
qed

text \<open>
  Claim C3. For an eigenvalue problem with well-formed fission tables, a fissile material
  \<open>m\<close> and \<open>k_eff \<noteq> 0\<close>, \<^verbatim>\<open>scale_fiss_transfer_matrices(k_eff)\<close> returns, and the
  entry \<open>[m][gin][g]\<close> of the scaled table is the entry \<open>[m][gin][g]\<close> of
  \<^verbatim>\<open>all_ksi_nusigf_per_ster\<close> divided by \<open>k_eff\<close>, for all groups \<open>gin\<close>, \<open>g\<close>.
\<close>

theorem scale_fissile:
  assumes "is_eigen_problem st" and "fission_tables_ok st"
    and "m < n_material st" and "is_material_fissile st m = Some True"
    and "k_eff \<noteq> 0" and "gin < n_group st" and "g < n_group st"
  shows "\<exists>st'. scale_fiss_transfer_matrices k_eff st = Inr st' \<and>
           scaled_fiss_transfer_per_ster st' ! m ! gin ! g =
             ksi_nusigf_per_ster st m ! gin ! g / k_eff"
proof -
  from assms(4) have fis: "fissile st m" by (simp add: fissile_def)
  from scale_fiss_transfer_matrices_result [OF assms(1,2), of k_eff]
  obtain scaled where s: "scale_fiss_transfer_matrices k_eff st =
             Inr (st\<lparr>scaled_fiss_transfer_per_ster := scaled\<rparr>)"
    "\<forall>m < n_material st. scaled_matrix st k_eff m = Inr (scaled ! m)" by blast
  from assms(2,3) fis have "n_group st \<le> length (ksi_nusigf_per_ster st m)"
    "\<forall>gin < n_group st. n_group st \<le> length (ksi_nusigf_per_ster st m ! gin)"
    by (auto simp: fission_tables_ok_def)
  from scaled_matrix_fissile [OF fis this, of k_eff] s(2) assms(3,6,7)
  have "scaled ! m ! gin ! g = ksi_nusigf_per_ster st m ! gin ! g / k_eff" by auto
  with s(1) show ?thesis by simp
qed

theorem scale_fissile_witness:
  "\<exists>st'. scale_fiss_transfer_matrices 2 small_problem = Inr st' \<and>
     scaled_fiss_transfer_per_ster st' ! 0 ! 1 ! 0 = 3"
proof -
  have e: "is_eigen_problem small_problem" by (simp add: small_problem_def)
  have m: "0 < n_material small_problem" by (simp add: small_problem_def)
  have f: "is_material_fissile small_problem 0 = Some True" by (simp add: small_problem_def)
  have k: "(2::real) \<noteq> 0" by simp
  have g: "1 < n_group small_problem" "0 < n_group small_problem"
    by (simp_all add: small_problem_def)
  have v: "ksi_nusigf_per_ster small_problem 0 ! 1 ! 0 / 2 = 3"
    by (simp add: ksi_nusigf_per_ster_def small_problem_def)
  from scale_fissile [OF e small_problem_tables m f k g] v show ?thesis by simp
qed

text \<open>
  Claim C4. For an eigenvalue problem with well-formed fission tables, a material \<open>m\<close>
  that is not fissile and any \<open>k_eff\<close>, \<^verbatim>\<open>scale_fiss_transfer_matrices(k_eff)\<close>
  returns, and the scaled matrix of \<open>m\<close> is the \<open>n_group \<times> n_group\<close> matrix of zeros.
\<close>

theorem scale_not_fissile:
  assumes "is_eigen_problem st" and "fission_tables_ok st"
    and "m < n_material st" and "\<not> fissile st m"
  shows "\<exists>st'. scale_fiss_transfer_matrices k_eff st = Inr st' \<and>
           scaled_fiss_transfer_per_ster st' ! m =
             replicate (n_group st) (replicate (n_group st) 0)"
proof -
  from scale_fiss_transfer_matrices_result [OF assms(1,2), of k_eff]
  obtain scaled where s: "scale_fiss_transfer_matrices k_eff st =
             Inr (st\<lparr>scaled_fiss_transfer_per_ster := scaled\<rparr>)"
    "\<forall>m < n_material st. scaled_matrix st k_eff m = Inr (scaled ! m)" by blast
  from s(2) assms(3,4) have "scaled ! m = replicate (n_group st) (replicate (n_group st) 0)"
    by (auto simp: scaled_matrix_not_fissile)
  with s(1) show ?thesis by simp
qed

theorem scale_not_fissile_witness:
  "\<exists>st'. scale_fiss_transfer_matrices 0 small_problem = Inr st' \<and>
     scaled_fiss_transfer_per_ster st' ! 1 = [[0, 0], [0, 0]]"
proof -
  have e: "is_eigen_problem small_problem" by (simp add: small_problem_def)
  have m: "1 < n_material small_problem" by (simp add: small_problem_def)
  have f: "\<not> fissile small_problem 1" by (simp add: small_problem_def fissile_def)
  have z: "replicate (n_group small_problem) (replicate (n_group small_problem) (0::real)) =
      [[0, 0], [0, 0]]"
    by (simp add: small_problem_def numeral_2_eq_2)
  from scale_not_fissile [OF e small_problem_tables m f, of 0] z show ?thesis by simp
qed

subsection \<open>The guard of the interface assembly\<close>

lemma volume_cell_frame:
  "volume_cell hooks pre k g d ic (st\<lparr>mat_store := M\<rparr>) = Inr t \<Longrightarrow>
   \<exists>M'. t = st\<lparr>mat_store := M'\<rparr>"
  by (auto simp: volume_cell_def mat_add_def Let_def split: if_splits)

lemma volume_component_frame:
  assumes "volume_component hooks pre k (st\<lparr>mat_store := M\<rparr>) = Inr t"
  shows "\<exists>M'. t = st\<lparr>mat_store := M'\<rparr>"
proof -
  let ?I = "\<lambda>(i::nat) t. \<exists>M'. t = st\<lparr>mat_store := M'\<rparr>"
  let ?s = "mat_set_zero (sys_mats st ! k) (st\<lparr>mat_store := M\<rparr>)"
  from assms have f: "fold_err (volume_cell hooks pre k (get_component_group st k)
      (get_component_direction st k)) [0..<length (local_cells st)] ?s = Inr t"
    by (simp add: volume_component_def mat_set_zero_def Let_def split: if_splits)
  show ?thesis
  proof (rule fold_err_upt_rule [of _ _ _ _ ?I, OF f])
    show "?I 0 ?s" by (simp add: mat_set_zero_def) blast
  next
    fix i u u' assume "?I i u"
      and "volume_cell hooks pre k (get_component_group st k)
             (get_component_direction st k) i u = Inr u'"
    then show "?I (Suc i) u'" by (auto dest: volume_cell_frame)
  qed
qed

lemma assemble_volume_frame:
  assumes "assemble_volume_boundary_bilinear_form hooks st = Inr t"
  shows "\<exists>M. t = st\<lparr>mat_store := M\<rparr>"
proof -
  let ?I = "\<lambda>(i::nat) t. \<exists>M'. t = st\<lparr>mat_store := M'\<rparr>"
  from assms obtain pre where
    f: "fold_err (volume_component hooks pre) [0..<n_total_vars st] st = Inr t"
    by (auto simp: assemble_volume_boundary_bilinear_form_def Let_def split: if_splits)
  show ?thesis
  proof (rule fold_err_upt_rule [of _ _ _ _ ?I, OF f])
    have "st = st\<lparr>mat_store := mat_store st\<rparr>" by simp
    then show "?I 0 st" by blast
  next
    fix i u u' assume "?I i u" and "volume_component hooks pre i u = Inr u'"
    then show "?I (Suc i) u'" by (auto dest: volume_component_frame)
  qed
qed

text \<open>
  Claim C5. Let the volume and boundary assembly return the equation \<open>st1\<close>. If the
  discretization is not \<open>"dfem"\<close>, \<^verbatim>\<open>assemble_bilinear_form\<close> goes on to the
  preconditioners with \<open>st1\<close>, without the interface assembly. If it is \<open>"dfem"\<close> and
  the equation is \<open>"ep"\<close>, the interface assembly runs on \<open>st1\<close> before the
  preconditioners. If it is \<open>"dfem"\<close> and the equation is not \<open>"ep"\<close>, the call
  throws.
\<close>

theorem assemble_bilinear_form_dfem:
  assumes "assemble_volume_boundary_bilinear_form hooks st = Inr st1"
  shows "(discretization st \<noteq> ''dfem'' \<longrightarrow>
            assemble_bilinear_form hooks alg st = initialize_preconditioners alg st1) \<and>
         (discretization st = ''dfem'' \<and> equation_name st = ''ep'' \<longrightarrow>
            assemble_bilinear_form hooks alg st =
              (case assemble_interface_bilinear_form hooks st1 of
                 Inl e \<Rightarrow> Inl e
               | Inr st2 \<Rightarrow> initialize_preconditioners alg st2)) \<and>
         (discretization st = ''dfem'' \<and> equation_name st \<noteq> ''ep'' \<longrightarrow>
            assemble_bilinear_form hooks alg st =
              Inl (ExcMessage ''DFEM is only implemented for even parity''))"
proof -
  from assemble_volume_frame [OF assms] obtain M where "st1 = st\<lparr>mat_store := M\<rparr>" ..
  then have "discretization st1 = discretization st" "equation_name st1 = equation_name st"
    by simp_all
  with assms show ?thesis by (simp add: assemble_bilinear_form_def)
qed

theorem assemble_bilinear_form_dfem_witness:
  "assemble_bilinear_form EquationBase_integrators \<lparr>initialize_preconditioners = Inr\<rparr>
     (small_problem\<lparr>equation_name := ''sn'', discretization := ''dfem''\<rparr>) =
     Inl (ExcMessage ''DFEM is only implemented for even parity'') \<and>
   (\<exists>st1. assemble_volume_boundary_bilinear_form EquationBase_integrators
            (small_problem\<lparr>equation_name := ''sn'', discretization := ''cfem''\<rparr>) = Inr st1 \<and>
      assemble_bilinear_form EquationBase_integrators \<lparr>initialize_preconditioners = Inr\<rparr>
        (small_problem\<lparr>equation_name := ''sn'', discretization := ''cfem''\<rparr>) = Inr st1) \<and>
   (\<exists>st1. assemble_volume_boundary_bilinear_form EquationBase_integrators
            (small_problem\<lparr>equation_name := ''ep'', discretization := ''dfem''\<rparr>) = Inr st1 \<and>
      assemble_bilinear_form EquationBase_integrators \<lparr>initialize_preconditioners = Inr\<rparr>
        (small_problem\<lparr>equation_name := ''ep'', discretization := ''dfem''\<rparr>) =
      assemble_interface_bilinear_form EquationBase_integrators st1)"
proof -
  let ?h = EquationBase_integrators
  let ?alg = "\<lparr>initialize_preconditioners = Inr\<rparr>"
  let ?p = "\<lambda>name disc. small_problem\<lparr>equation_name := name, discretization := disc\<rparr>"
  from small_problem_volume [where name = "''sn''" and disc = "''dfem''"] obtain s1
    where s1: "assemble_volume_boundary_bilinear_form ?h (?p ''sn'' ''dfem'') = Inr s1" ..
  from small_problem_volume [where name = "''sn''" and disc = "''cfem''"] obtain s2
    where s2: "assemble_volume_boundary_bilinear_form ?h (?p ''sn'' ''cfem'') = Inr s2" ..
  from small_problem_volume [where name = "''ep''" and disc = "''dfem''"] obtain s3
    where s3: "assemble_volume_boundary_bilinear_form ?h (?p ''ep'' ''dfem'') = Inr s3" ..
  from assemble_bilinear_form_dfem [OF s1, of ?alg]
  have a: "assemble_bilinear_form ?h ?alg (?p ''sn'' ''dfem'') =
      Inl (ExcMessage ''DFEM is only implemented for even parity'')" by simp
  from assemble_bilinear_form_dfem [OF s2, of ?alg]
  have b: "assemble_bilinear_form ?h ?alg (?p ''sn'' ''cfem'') = Inr s2" by simp
  from assemble_bilinear_form_dfem [OF s3, of ?alg]
  have c: "assemble_bilinear_form ?h ?alg (?p ''ep'' ''dfem'') =
      assemble_interface_bilinear_form ?h s3"
    by (cases "assemble_interface_bilinear_form ?h s3") simp_all
  from a b c s2 s3 show ?thesis by blast
qed

subsection \<open>Power iteration\<close>

lemma eigen_loop_unroll:
  "(\<forall>m < n. \<exists>z. outer_iterate ops m x = Inr z \<and> not_converged ops z) \<Longrightarrow>
   eigen_loop ops x =
     (case outer_iterate ops n x of Inl e \<Rightarrow> Some (Inl e) | Inr y \<Rightarrow> eigen_loop ops y)"
proof (induction n arbitrary: x)
  case 0
  show ?case by simp
next
  case (Suc n)
  from Suc.prems [rule_format, of 0] have nc: "not_converged ops x" by simp
  show ?case
  proof (cases "outer_iteration ops x")
    case (Inl e)
    with nc show ?thesis by (subst eigen_loop.simps) simp
  next
    case (Inr y)
    have "\<forall>m < n. \<exists>z. outer_iterate ops m y = Inr z \<and> not_converged ops z"
    proof (intro allI impI)
      fix m assume "m < n"
      with Suc.prems [rule_format, of "Suc m"] Inr
      show "\<exists>z. outer_iterate ops m y = Inr z \<and> not_converged ops z" by simp
    qed
    from Suc.IH [OF this] nc Inr show ?thesis by (subst eigen_loop.simps) simp
  qed
qed

lemma eigen_loop_result:
  assumes "eigen_loop ops x = Some r"
  shows "\<exists>n. (\<forall>m < n. \<exists>z. outer_iterate ops m x = Inr z \<and> not_converged ops z) \<and>
           outer_iterate ops n x = r \<and>
           (case r of Inl e \<Rightarrow> True | Inr y \<Rightarrow> \<not> not_converged ops y)"
proof -
  define P where "P = (\<lambda>ops (x :: 'a outer) r.
      \<exists>n. (\<forall>m < n. \<exists>z. outer_iterate ops m x = Inr z \<and> not_converged ops z) \<and>
           outer_iterate ops n x = r \<and>
           (case r of Inl e \<Rightarrow> True | Inr y \<Rightarrow> \<not> not_converged ops y))"
  have "(case (ops, x) of (a, b) \<Rightarrow> P a b) r"
  proof (rule eigen_loop.raw_induct [where P = P and xa = "(ops, x)"])
    show "(case (ops, x) of (a, b) \<Rightarrow> eigen_loop a b) = Some r" using assms by simp
  next
    fix loop :: "'a eigen_ops \<Rightarrow> 'a outer \<Rightarrow> (error + 'a outer) option"
    fix ops x r
    assume IH: "\<And>x b y. loop x b = Some y \<Longrightarrow> P x b y"
      and eq: "(if not_converged ops x
                then case outer_iteration ops x of
                       Inl e \<Rightarrow> Some (Inl e) | Inr x' \<Rightarrow> loop ops x'
                else Some (Inr x)) = Some r"
    show "P ops x r"
    proof (cases "not_converged ops x")
      case False
      with eq have "r = Inr x" by auto
      with False show ?thesis unfolding P_def by (intro exI [of _ 0]) simp
    next
      case nc: True
      show ?thesis
      proof (cases "outer_iteration ops x")
        case (Inl e)
        with nc eq have "r = Inl e" by auto
        with Inl nc show ?thesis unfolding P_def by (intro exI [of _ "Suc 0"]) simp
      next
        case (Inr y)
        with nc eq have "loop ops y = Some r" by simp
        from IH [OF this] obtain n where
          n: "\<forall>m < n. \<exists>z. outer_iterate ops m y = Inr z \<and> not_converged ops z"
          "outer_iterate ops n y = r"
          "case r of Inl e \<Rightarrow> True | Inr y \<Rightarrow> \<not> not_converged ops y"
          unfolding P_def by blast
        have "\<forall>m < Suc n. \<exists>z. outer_iterate ops m x = Inr z \<and> not_converged ops z"
        proof (intro allI impI)
          fix m assume m: "m < Suc n"
          show "\<exists>z. outer_iterate ops m x = Inr z \<and> not_converged ops z"
          proof (cases m)
            case 0
            with nc show ?thesis by simp
          next
            case (Suc j)
            with m n(1) Inr show ?thesis by simp
          qed
        qed
        with n(2,3) Inr show ?thesis unfolding P_def by (intro exI [of _ "Suc n"]) simp
      qed
    qed
  qed
  then show ?thesis by (simp add: P_def)
qed

lemma outer_iteration_order:
  "outer_iteration ops x = Inr y \<longleftrightarrow>
     (\<exists>w1 w2 w3 w4 w5.
        update_prev_sflxes_fiss_src_keff ops (world x) = Inr w1 \<and>
        back_scale_fiss_transfer_matrices ops (keff ops w1) w1 = Inr w2 \<and>
        back_assemble_fixed_linear_form ops w2 = Inr w3 \<and>
        mg_iterations ops w3 = Inr w4 \<and>
        calculate_fiss_src_keff ops w4 = Inr w5 \<and>
        y = \<lparr>err_k = estimate_k_diff ops w5, err_phi = estimate_phi_diff ops w5,
             iter = iter x + 1, world = w5\<rparr>)"
  by (auto simp: outer_iteration_def split: sum.splits)

lemma double_gt_le:
  "a \<noteq> NaN \<Longrightarrow> t \<noteq> NaN \<Longrightarrow> \<not> double_gt a t \<longleftrightarrow> double_le a t"
  by (cases a; cases t) auto

text \<open>
  Claim C6, amended. One outer iteration succeeds exactly when its five calls succeed one
  after the other, each on the world left by the one before: update of the previous
  iterate, scaling by the \<open>keff\<close> of the updated world, fixed linear form, multigroup
  iterations, fission source and \<open>keff\<close>; the two errors are then those of the last
  world. \<^verbatim>\<open>eigen_iterations\<close> returns \<open>r\<close> exactly when \<open>r\<close> is the first iterate, of
  any number \<open>n\<close>, for which neither \<open>err_k > err_k_tol\<close> nor
  \<open>err_phi > err_phi_tol\<close> holds, all iterations before having succeeded. If every
  iterate exists and exceeds a tolerance, it never returns: the loop has no iteration
  cap. For an error and a tolerance that are not NaN, not exceeding the tolerance is
  \<open>err \<le> tol\<close>.
\<close>

theorem eigen_iterations_state_machine:
  "(outer_iteration ops x = Inr y \<longleftrightarrow>
     (\<exists>w1 w2 w3 w4 w5.
        update_prev_sflxes_fiss_src_keff ops (world x) = Inr w1 \<and>
        back_scale_fiss_transfer_matrices ops (keff ops w1) w1 = Inr w2 \<and>
        back_assemble_fixed_linear_form ops w2 = Inr w3 \<and>
        mg_iterations ops w3 = Inr w4 \<and>
        calculate_fiss_src_keff ops w4 = Inr w5 \<and>
        y = \<lparr>err_k = estimate_k_diff ops w5, err_phi = estimate_phi_diff ops w5,
             iter = iter x + 1, world = w5\<rparr>)) \<and>
   (eigen_iterations ops w = Some (Inr r) \<longleftrightarrow>
     (\<exists>n. outer_iterate ops n (start w) = Inr r \<and>
          \<not> double_gt (err_k r) (err_k_tol ops) \<and>
          \<not> double_gt (err_phi r) (err_phi_tol ops) \<and>
          (\<forall>m < n. \<exists>z. outer_iterate ops m (start w) = Inr z \<and>
             (double_gt (err_k z) (err_k_tol ops) \<or>
              double_gt (err_phi z) (err_phi_tol ops))))) \<and>
   ((\<forall>n. \<exists>z. outer_iterate ops n (start w) = Inr z \<and>
        (double_gt (err_k z) (err_k_tol ops) \<or> double_gt (err_phi z) (err_phi_tol ops))) \<longrightarrow>
      eigen_iterations ops w = None) \<and>
   (a \<noteq> NaN \<and> t \<noteq> NaN \<longrightarrow> (\<not> double_gt a t \<longleftrightarrow> double_le a t))"
proof (intro conjI)
  show "outer_iteration ops x = Inr y \<longleftrightarrow>
     (\<exists>w1 w2 w3 w4 w5.
        update_prev_sflxes_fiss_src_keff ops (world x) = Inr w1 \<and>
        back_scale_fiss_transfer_matrices ops (keff ops w1) w1 = Inr w2 \<and>
        back_assemble_fixed_linear_form ops w2 = Inr w3 \<and>
        mg_iterations ops w3 = Inr w4 \<and>
        calculate_fiss_src_keff ops w4 = Inr w5 \<and>
        y = \<lparr>err_k = estimate_k_diff ops w5, err_phi = estimate_phi_diff ops w5,
             iter = iter x + 1, world = w5\<rparr>)"
    by (rule outer_iteration_order)
next
  have ei: "eigen_iterations ops w = eigen_loop ops (start w)"
    by (simp add: eigen_iterations_def)
  show "eigen_iterations ops w = Some (Inr r) \<longleftrightarrow>
     (\<exists>n. outer_iterate ops n (start w) = Inr r \<and>
          \<not> double_gt (err_k r) (err_k_tol ops) \<and>
          \<not> double_gt (err_phi r) (err_phi_tol ops) \<and>
          (\<forall>m < n. \<exists>z. outer_iterate ops m (start w) = Inr z \<and>
             (double_gt (err_k z) (err_k_tol ops) \<or>
              double_gt (err_phi z) (err_phi_tol ops))))"
    (is "?L \<longleftrightarrow> ?R")
  proof
    assume ?L
    with ei have "eigen_loop ops (start w) = Some (Inr r)" by simp
    from eigen_loop_result [OF this] obtain n where
      "\<forall>m < n. \<exists>z. outer_iterate ops m (start w) = Inr z \<and> not_converged ops z"
      "outer_iterate ops n (start w) = Inr r" "\<not> not_converged ops r" by auto
    then show ?R by (intro exI [of _ n]) (simp add: not_converged_def)
  next
    assume ?R
    then obtain n where n: "outer_iterate ops n (start w) = Inr r"
      "\<not> not_converged ops r"
      "\<forall>m < n. \<exists>z. outer_iterate ops m (start w) = Inr z \<and> not_converged ops z"
      by (auto simp: not_converged_def)
    from eigen_loop_unroll [OF n(3)] n(1)
    have "eigen_loop ops (start w) = eigen_loop ops r" by simp
    also from n(2) have "\<dots> = Some (Inr r)" by (subst eigen_loop.simps) simp
    finally show ?L using ei by simp
  qed
next
  have ei: "eigen_iterations ops w = eigen_loop ops (start w)"
    by (simp add: eigen_iterations_def)
  show "(\<forall>n. \<exists>z. outer_iterate ops n (start w) = Inr z \<and>
        (double_gt (err_k z) (err_k_tol ops) \<or> double_gt (err_phi z) (err_phi_tol ops))) \<longrightarrow>
      eigen_iterations ops w = None"
  proof
    assume a: "\<forall>n. \<exists>z. outer_iterate ops n (start w) = Inr z \<and>
        (double_gt (err_k z) (err_k_tol ops) \<or> double_gt (err_phi z) (err_phi_tol ops))"
    show "eigen_iterations ops w = None"
    proof (rule ccontr)
      assume "eigen_iterations ops w \<noteq> None"
      with ei obtain res where "eigen_loop ops (start w) = Some res" by auto
      from eigen_loop_result [OF this] obtain n where
        n: "outer_iterate ops n (start w) = res"
        "case res of Inl e \<Rightarrow> True | Inr y \<Rightarrow> \<not> not_converged ops y" by blast
      from a obtain z where "outer_iterate ops n (start w) = Inr z" "not_converged ops z"
        by (auto simp: not_converged_def)
      with n show False by auto
    qed
  qed
next
  show "a \<noteq> NaN \<and> t \<noteq> NaN \<longrightarrow> (\<not> double_gt a t \<longleftrightarrow> double_le a t)"
    by (simp add: double_gt_le)
qed

lemma logging_iteration:
  "outer_iteration (logging_ops tol) x =
     Inr \<lparr>err_k = Finite (1 / real (length (world x) + 5)),
          err_phi = Finite (1 / real (length (world x) + 5)),
          iter = iter x + 1,
          world = world x @ [''update'', ''scale'', ''fixed'', ''mg'', ''keff'']\<rparr>"
  by (simp add: outer_iteration_def logging_ops_def)

lemma logging_never_converges:
  "double_gt (err_k x) (Finite 0) \<Longrightarrow>
   \<exists>z. outer_iterate (logging_ops 0) n x = Inr z \<and> double_gt (err_k z) (Finite 0)"
proof (induction n arbitrary: x)
  case 0
  then show ?case by simp
next
  case (Suc n)
  show ?case by (simp add: logging_iteration Suc.IH)
qed

theorem eigen_iterations_state_machine_witness:
  "eigen_iterations (logging_ops (3 / 20)) [] =
     Some (Inr \<lparr>err_k = Finite (1 / 10), err_phi = Finite (1 / 10), iter = 2,
                world = [''update'', ''scale'', ''fixed'', ''mg'', ''keff'',
                         ''update'', ''scale'', ''fixed'', ''mg'', ''keff'']\<rparr>) \<and>
   eigen_iterations (logging_ops 0) [] = None \<and>
   double_le (Finite (1 / 10)) (Finite (3 / 20))"
proof -
  let ?r = "\<lparr>err_k = Finite (1 / 10), err_phi = Finite (1 / 10), iter = 2,
             world = [''update'', ''scale'', ''fixed'', ''mg'', ''keff'',
                      ''update'', ''scale'', ''fixed'', ''mg'', ''keff'']\<rparr>"
  let ?ops = "logging_ops (3 / 20)"
  have tol: "err_k_tol ?ops = Finite (3 / 20)" "err_phi_tol ?ops = Finite (3 / 20)"
    "err_k_tol (logging_ops 0) = Finite 0"
    by (simp_all add: logging_ops_def)
  have i0: "outer_iterate ?ops 0 (start []) = Inr (start [])" by simp
  have i1: "outer_iterate ?ops 1 (start []) =
      Inr \<lparr>err_k = Finite (1 / 5), err_phi = Finite (1 / 5), iter = 1,
           world = [''update'', ''scale'', ''fixed'', ''mg'', ''keff'']\<rparr>"
    by (simp add: logging_iteration start_def)
  have i2: "outer_iterate ?ops 2 (start []) = Inr ?r"
    by (simp add: numeral_2_eq_2 logging_iteration start_def)
  have "\<exists>n. outer_iterate ?ops n (start []) = Inr ?r \<and>
          \<not> double_gt (err_k ?r) (err_k_tol ?ops) \<and>
          \<not> double_gt (err_phi ?r) (err_phi_tol ?ops) \<and>
          (\<forall>m < n. \<exists>z. outer_iterate ?ops m (start []) = Inr z \<and>
             (double_gt (err_k z) (err_k_tol ?ops) \<or>
              double_gt (err_phi z) (err_phi_tol ?ops)))"
    using i0 i1 i2 tol by (intro exI [of _ 2]) (simp add: all_less_2 start_def)
  with eigen_iterations_state_machine [of ?ops _ _ "[]" ?r]
  have a: "eigen_iterations ?ops [] = Some (Inr ?r)" by blast
  have "\<forall>n. \<exists>z. outer_iterate (logging_ops 0) n (start []) = Inr z \<and>
        (double_gt (err_k z) (err_k_tol (logging_ops 0)) \<or>
         double_gt (err_phi z) (err_phi_tol (logging_ops 0)))"
    using logging_never_converges [of "start []"] tol(3) by (auto simp: start_def)
  with eigen_iterations_state_machine [of "logging_ops 0" _ _ "[]"]
  have b: "eigen_iterations (logging_ops 0) [] = None" by blast
  have n: "Finite (1 / 10) \<noteq> NaN \<and> Finite (3 / 20) \<noteq> NaN" by simp
  from eigen_iterations_state_machine
    [of ?ops _ _ "[]" _ "Finite (1 / 10)" "Finite (3 / 20)"] n
  have c: "double_le (Finite (1 / 10)) (Finite (3 / 20))" by simp
  from a b c show ?thesis by simp
qed

text \<open>
  The claim as worded, that the loop is left exactly when \<open>err_k \<le> err_k_tol\<close> and
  \<open>err_phi \<le> err_phi_tol\<close>, fails when an error is NaN: the loop is left after the
  first round although \<open>err_k \<le> err_k_tol\<close> is false.
\<close>

theorem eigen_iterations_nan_counterexample:
  "eigen_iterations nan_ops [] = Some (Inr nan_result) \<and>
   \<not> (double_le (err_k nan_result) (err_k_tol nan_ops) \<and>
      double_le (err_phi nan_result) (err_phi_tol nan_ops))"
proof -
  have s: "not_converged nan_ops (start [])"
    by (simp add: not_converged_def nan_ops_def logging_ops_def start_def)
  have i: "outer_iteration nan_ops (start []) = Inr nan_result"
    by (simp add: outer_iteration_def nan_ops_def logging_ops_def start_def nan_result_def)
  have r: "\<not> not_converged nan_ops nan_result"
    by (simp add: not_converged_def nan_ops_def logging_ops_def nan_result_def)
  have "eigen_loop nan_ops (start []) = eigen_loop nan_ops nan_result"
    using s i by (subst eigen_loop.simps) simp
  also have "\<dots> = Some (Inr nan_result)"
    using r by (subst eigen_loop.simps) simp
  finally have "eigen_iterations nan_ops [] = Some (Inr nan_result)"
    by (simp add: eigen_iterations_def)
  moreover have "\<not> double_le (err_k nan_result) (err_k_tol nan_ops)"
    by (simp add: nan_result_def)
  ultimately show ?thesis by simp
qed

subsection \<open>Moments of the angular flux\<close>

lemma add_direction_step:
  assumes rdy: "moments_ready st g n" and i: "i_dir < n_dir st"
    and len: "length sflx = n" and ap: "length ap = length (aflxes_proc st)"
  shows "add_direction g i_dir (sflx, st\<lparr>aflxes_proc := ap\<rparr>) =
           Inr (map2 (\<lambda>x y. x + wi st ! i_dir * y) sflx (angular_flux st i_dir g),
                st\<lparr>aflxes_proc :=
                     ap[get_component_index st i_dir g := angular_flux st i_dir g]\<rparr>)"
proof -
  let ?i = "get_component_index st i_dir g"
  have idx: "get_component_index (st\<lparr>aflxes_proc := ap\<rparr>) i_dir g = ?i"
    by (simp add: get_component_index_def)
  from rdy i have r: "?i < length (aflxes_proc st)" "?i < length (sys_aflxes st)"
    "length (vec_store st (sys_aflxes st ! ?i)) = n" "i_dir < length (wi st)"
    by (auto simp: moments_ready_def angular_flux_def)
  with len ap show ?thesis
    by (simp add: add_direction_def idx Let_def vec_add_def angular_flux_def)
qed

lemma moments_loop:
  assumes rdy: "moments_ready st g n" and len: "length sflx0 = n"
  shows "\<exists>sflx ap. fold_err (add_direction g) [0..<n_dir st] (sflx0, st) =
             Inr (sflx, st\<lparr>aflxes_proc := ap\<rparr>) \<and>
           length ap = length (aflxes_proc st) \<and> length sflx = n \<and>
           (\<forall>j < n. sflx ! j =
              sflx0 ! j + (\<Sum>i_dir < n_dir st. wi st ! i_dir * angular_flux st i_dir g ! j))"
proof -
  let ?I = "\<lambda>i p. \<exists>sflx ap. p = (sflx, st\<lparr>aflxes_proc := ap\<rparr>) \<and>
              length ap = length (aflxes_proc st) \<and> length sflx = n \<and>
              (\<forall>j < n. sflx ! j =
                 sflx0 ! j + (\<Sum>i_dir < i. wi st ! i_dir * angular_flux st i_dir g ! j))"
  have "\<exists>s'. fold_err (add_direction g) [0..<n_dir st] (sflx0, st) = Inr s' \<and>
          ?I (n_dir st) s'"
  proof (rule fold_err_upt_total [of ?I])
    have "(sflx0, st) = (sflx0, st\<lparr>aflxes_proc := aflxes_proc st\<rparr>)" by simp
    with len show "?I 0 (sflx0, st)" by (intro exI conjI) auto
  next
    fix i p assume i: "i < n_dir st" and p: "?I i p"
    then obtain sflx ap where q: "p = (sflx, st\<lparr>aflxes_proc := ap\<rparr>)"
      "length ap = length (aflxes_proc st)" "length sflx = n"
      "\<forall>j < n. sflx ! j =
          sflx0 ! j + (\<Sum>i_dir < i. wi st ! i_dir * angular_flux st i_dir g ! j)"
      by blast
    let ?a = "angular_flux st i g"
    from rdy i have la: "length ?a = n" by (simp add: moments_ready_def angular_flux_def)
    let ?ap = "ap[get_component_index st i g := ?a]"
    let ?sflx = "map2 (\<lambda>x y. x + wi st ! i * y) sflx ?a"
    from add_direction_step [OF rdy i q(3) q(2)] q(1)
    have s: "add_direction g i p = Inr (?sflx, st\<lparr>aflxes_proc := ?ap\<rparr>)" by simp
    have "\<forall>j < n. ?sflx ! j =
        sflx0 ! j + (\<Sum>i_dir < Suc i. wi st ! i_dir * angular_flux st i_dir g ! j)"
      using q(3,4) la by (simp add: add.assoc)
    moreover have "length ?sflx = n" "length ?ap = length (aflxes_proc st)"
      using q(2,3) la by simp_all
    ultimately have "?I (Suc i) (?sflx, st\<lparr>aflxes_proc := ?ap\<rparr>)" by blast
    with s show "\<exists>t'. add_direction g i p = Inr t' \<and> ?I (Suc i) t'" by blast
  qed
  then show ?thesis by blast
qed

text \<open>
  Claim C7. For an equation other than NDA, \<^verbatim>\<open>generate_moments\<close> for group \<open>g\<close>
  returns; the old scalar flux is the scalar flux passed in, and every entry of the new
  scalar flux is the sum over all directions \<open>i_dir\<close> of \<open>wi[i_dir]\<close> times that
  entry of the angular flux of component \<^verbatim>\<open>get_component_index(i_dir, g)\<close>. If every
  such angular flux is 1 everywhere, the new scalar flux is everywhere the sum of the
  quadrature weights.
\<close>

theorem generate_moments_weighted_sum:
  assumes "equation_name st \<noteq> ''nda''"
    and "moments_ready st g (length sflx_proc)"
  shows "\<exists>sflx st'. generate_moments_group sflx_proc sflx_proc_old g st =
             Inr (sflx, sflx_proc, st') \<and>
           length sflx = length sflx_proc \<and>
           (\<forall>j < length sflx_proc. sflx ! j =
              (\<Sum>i_dir < n_dir st. wi st ! i_dir * angular_flux st i_dir g ! j)) \<and>
           ((\<forall>i_dir < n_dir st. \<forall>j < length sflx_proc. angular_flux st i_dir g ! j = 1) \<longrightarrow>
              sflx = replicate (length sflx_proc) (sum_list (wi st)))"
proof -
  let ?n = "length sflx_proc"
  from moments_loop [OF assms(2), of "map (\<lambda>x. 0) sflx_proc"]
  obtain sflx ap where l: "fold_err (add_direction g) [0..<n_dir st]
        (map (\<lambda>x. 0) sflx_proc, st) = Inr (sflx, st\<lparr>aflxes_proc := ap\<rparr>)"
    "length sflx = ?n"
    "\<forall>j < ?n. sflx ! j = map (\<lambda>x. 0) sflx_proc ! j +
        (\<Sum>i_dir < n_dir st. wi st ! i_dir * angular_flux st i_dir g ! j)"
    by auto
  have val: "\<forall>j < ?n. sflx ! j =
      (\<Sum>i_dir < n_dir st. wi st ! i_dir * angular_flux st i_dir g ! j)"
    using l(3) by simp
  have one: "sflx = replicate ?n (sum_list (wi st))"
    if u: "\<forall>i_dir < n_dir st. \<forall>j < ?n. angular_flux st i_dir g ! j = 1"
  proof (rule nth_equalityI)
    show "length sflx = length (replicate ?n (sum_list (wi st)))" using l(2) by simp
  next
    fix j assume "j < length sflx"
    with l(2) have j: "j < ?n" by simp
    from assms(2) have w: "length (wi st) = n_dir st" by (simp add: moments_ready_def)
    from val j have "sflx ! j =
        (\<Sum>i_dir < n_dir st. wi st ! i_dir * angular_flux st i_dir g ! j)" by simp
    also have "\<dots> = (\<Sum>i_dir < n_dir st. wi st ! i_dir)"
      using u j by (intro sum.cong) auto
    also have "\<dots> = sum_list (wi st)"
      using w by (simp add: sum_list_sum_nth atLeast0LessThan)
    finally show "sflx ! j = replicate ?n (sum_list (wi st)) ! j" using j by simp
  qed
  from assms(1) l(1) have "generate_moments_group sflx_proc sflx_proc_old g st =
      Inr (sflx, sflx_proc, st\<lparr>aflxes_proc := ap\<rparr>)"
    by (simp add: generate_moments_group_def)
  with l(2) val one show ?thesis by blast
qed

theorem generate_moments_weighted_sum_witness:
  "\<exists>sflx st'. generate_moments_group [7, 9] [0, 0] 0 small_problem = Inr (sflx, [7, 9], st') \<and>
     sflx = [4, 4]"
proof -
  have n: "equation_name small_problem \<noteq> ''nda''" by (simp add: small_problem_def)
  have a: "angular_flux small_problem 0 0 = [1, 1]" "angular_flux small_problem 1 0 = [1, 1]"
    by (simp_all add: angular_flux_def)
  have r: "moments_ready small_problem 0 (length [7, 9 :: real])"
    using a by (simp add: moments_ready_def all_less_2)
  have u: "\<forall>i_dir < n_dir small_problem. \<forall>j < length [7, 9 :: real].
      angular_flux small_problem i_dir 0 ! j = 1"
    using a by (simp add: all_less_2 All_less_Suc)
  have w: "replicate (length [7, 9 :: real]) (sum_list (wi small_problem)) = [4, 4]"
    by (simp add: numeral_2_eq_2)
  from generate_moments_weighted_sum [OF n r, of "[0, 0]"] u w show ?thesis by auto
qed

text \<open>
  Claim C10. The overload of \<^verbatim>\<open>generate_moments\<close> for all groups and the overload
  without arguments throw whenever \<^verbatim>\<open>do_nda\<close> is false, whatever the name of the
  equation: the guard is stronger than \<open>equation_name \<noteq> "nda"\<close>.
\<close>

theorem generate_moments_needs_do_nda:
  assumes "\<not> do_nda st"
  shows "generate_moments sflxes_proc sflxes_proc_old st =
           Inl (ExcMessage ''only non-NDA is supposed to call this function'') \<and>
         generate_moments_ho st =
           Inl (ExcMessage ''only non-NDA is supposed to call this function'')"
  using assms by (simp add: generate_moments_def generate_moments_ho_def)

theorem generate_moments_needs_do_nda_witness:
  "equation_name small_problem \<noteq> ''nda'' \<and>
   generate_moments [[7, 9], [7, 9]] [[0, 0], [0, 0]] small_problem =
     Inl (ExcMessage ''only non-NDA is supposed to call this function'') \<and>
   generate_moments_ho small_problem =
     Inl (ExcMessage ''only non-NDA is supposed to call this function'')"
proof -
  have d: "\<not> do_nda small_problem" by (simp add: small_problem_def)
  have n: "equation_name small_problem \<noteq> ''nda''" by (simp add: small_problem_def)
  from generate_moments_needs_do_nda [OF d] n show ?thesis by simp
qed

subsection \<open>Creating the system matrices and vectors\<close>

lemma init_component_created:
  "created st i s \<Longrightarrow> created st (Suc i) (init_component n_dofs i s)"
  by (simp add: created_def init_component_def new_matrix_def new_vector_def
      reinit_matrix_def reinit_vector_def Let_def)

lemma init_loop_created:
  "created st n (fold (init_component n_dofs) [0..<n] st)"
proof (induction n)
  case 0
  show ?case by (simp add: created_def)
next
  case (Suc n)
  then show ?case by (simp add: init_component_created)
qed

lemma init_sflx_loop:
  assumes "n \<le> length (sys_aflxes s)"
  shows "\<exists>sflxes. fold_err (init_sflx s) [0..<n] sflxes_proc = Inr sflxes"
proof -
  have "\<exists>s'. fold_err (init_sflx s) [0..<n] sflxes_proc = Inr s' \<and> True"
    using assms by (intro fold_err_upt_total [of "\<lambda>i t. True"]) (auto simp: init_sflx_def)
  then show ?thesis by blast
qed

lemma nth_snoc: "length xs = i \<Longrightarrow> (xs @ [a]) ! i = a"
  by auto

lemma init_component_stores:
  assumes "length (sys_mats s) = i" "length (sys_aflxes s) = i" "length (sys_rhses s) = i"
    "length (sys_fixed_rhses s) = i"
  shows "mat_store (init_component n_dofs i s) = (mat_store s)(next_mat s := [])"
    and "vec_store (init_component n_dofs i s) =
      (vec_store s)(next_vec s := replicate n_dofs 0,
        Suc (next_vec s) := replicate n_dofs 0,
        Suc (Suc (next_vec s)) := replicate n_dofs 0)"
  using assms
  by (simp_all add: init_component_def new_matrix_def new_vector_def
      reinit_matrix_def reinit_vector_def nth_snoc)

text \<open>
  On empty collections every object created by the loop is the one its \<^verbatim>\<open>reinit\<close>
  reaches: the matrices are left without entries, the vectors as zeros.
\<close>

lemma init_loop_contents:
  assumes fresh: "sys_mats st = []" "sys_aflxes st = []" "sys_rhses st = []"
    "sys_fixed_rhses st = []"
  shows "j < n \<Longrightarrow>
    mat_store (fold (init_component n_dofs) [0..<n] st) (next_mat st + j) = [] \<and>
    vec_store (fold (init_component n_dofs) [0..<n] st) (next_vec st + 3 * j) =
      replicate n_dofs 0 \<and>
    vec_store (fold (init_component n_dofs) [0..<n] st) (next_vec st + 3 * j + 1) =
      replicate n_dofs 0 \<and>
    vec_store (fold (init_component n_dofs) [0..<n] st) (next_vec st + 3 * j + 2) =
      replicate n_dofs 0"
proof (induction n)
  case 0
  then show ?case by simp
next
  case (Suc n)
  let ?s = "fold (init_component n_dofs) [0..<n] st"
  have c: "created st n ?s" by (rule init_loop_created)
  with fresh have len: "length (sys_mats ?s) = n" "length (sys_aflxes ?s) = n"
    "length (sys_rhses ?s) = n" "length (sys_fixed_rhses ?s) = n"
    and nxt: "next_mat ?s = next_mat st + n" "next_vec ?s = next_vec st + 3 * n"
    by (simp_all add: created_def)
  have step: "fold (init_component n_dofs) [0..<Suc n] st = init_component n_dofs n ?s"
    by simp
  note stores = init_component_stores [OF len, of n_dofs, unfolded nxt]
  show ?case
  proof (cases "j = n")
    case True
    then show ?thesis unfolding step stores by simp
  next
    case False
    with Suc.prems have "j < n" by simp
    with Suc.IH show ?thesis unfolding step stores by simp
  qed
qed

lemma new_vectors_distinct:
  "distinct (map (\<lambda>j. v + 3 * j) [0..<n] @ map (\<lambda>j. v + 3 * j + 1) [0..<n] @
     map (\<lambda>j. v + 3 * j + 2) [0..<n])" for v :: nat
proof -
  have "v + 3 * i \<noteq> v + 3 * j + 1" "v + 3 * i \<noteq> v + 3 * j + 2"
    "v + 3 * i + 1 \<noteq> v + 3 * j + 2" for i j :: nat
    by presburger+
  then show ?thesis by (auto simp: distinct_map inj_on_def)
qed

text \<open>
  Claim C9. \<^verbatim>\<open>initialize_system_matrices_vectors\<close> throws whenever the size of
  \<^verbatim>\<open>sflxes_proc\<close> is not \<open>n_group\<close>. When it is \<open>n_group\<close> (and \<open>n_group\<close>
  does not exceed the number of solution vectors then present), it returns, having
  appended to each of the four collections exactly \<open>n_total_vars\<close> pointers. The
  pointers appended are those of objects created by the call: none was allocated
  before, the matrices are pairwise different, and so are the vectors, across the three
  collections of vectors (no right-hand side is also a fixed right-hand side or a
  solution vector). Called on empty collections, it leaves all four with length
  \<open>n_total_vars\<close>, every matrix without entries and every vector with \<open>n_dofs\<close>
  zeros.
\<close>

theorem initialize_system_matrices_vectors_sizes:
  "(length sflxes_proc \<noteq> n_group st \<longrightarrow>
      initialize_system_matrices_vectors n_dofs sflxes_proc st =
        Inl (ExcMessage ''sflxes_proc has to be initilized in size outside'')) \<and>
   (length sflxes_proc = n_group st \<and> n_group st \<le> length (sys_aflxes st) + n_total_vars st \<longrightarrow>
      (\<exists>sflxes st' new_mats new_aflxes new_rhses new_fixed_rhses.
         initialize_system_matrices_vectors n_dofs sflxes_proc st = Inr (sflxes, st') \<and>
         sys_mats st' = sys_mats st @ new_mats \<and>
         sys_aflxes st' = sys_aflxes st @ new_aflxes \<and>
         sys_rhses st' = sys_rhses st @ new_rhses \<and>
         sys_fixed_rhses st' = sys_fixed_rhses st @ new_fixed_rhses \<and>
         length new_mats = n_total_vars st \<and>
         length new_aflxes = n_total_vars st \<and>
         length new_rhses = n_total_vars st \<and>
         length new_fixed_rhses = n_total_vars st \<and>
         distinct new_mats \<and>
         distinct (new_aflxes @ new_rhses @ new_fixed_rhses) \<and>
         (\<forall>a \<in> set new_mats. next_mat st \<le> a \<and> a < next_mat st') \<and>
         (\<forall>a \<in> set (new_aflxes @ new_rhses @ new_fixed_rhses).
            next_vec st \<le> a \<and> a < next_vec st') \<and>
         length (sys_mats st') = length (sys_mats st) + n_total_vars st \<and>
         length (sys_aflxes st') = length (sys_aflxes st) + n_total_vars st \<and>
         length (sys_rhses st') = length (sys_rhses st) + n_total_vars st \<and>
         length (sys_fixed_rhses st') = length (sys_fixed_rhses st) + n_total_vars st \<and>
         (sys_mats st = [] \<and> sys_aflxes st = [] \<and> sys_rhses st = [] \<and> sys_fixed_rhses st = [] \<longrightarrow>
            length (sys_mats st') = n_total_vars st \<and>
            length (sys_aflxes st') = n_total_vars st \<and>
            length (sys_rhses st') = n_total_vars st \<and>
            length (sys_fixed_rhses st') = n_total_vars st \<and>
            (\<forall>k < n_total_vars st.
               mat_store st' (sys_mats st' ! k) = [] \<and>
               vec_store st' (sys_aflxes st' ! k) = replicate n_dofs 0 \<and>
               vec_store st' (sys_rhses st' ! k) = replicate n_dofs 0 \<and>
               vec_store st' (sys_fixed_rhses st' ! k) = replicate n_dofs 0))))"
proof -
  let ?n = "n_total_vars st"
  let ?s = "fold (init_component n_dofs) [0..<?n] st"
  let ?M = "map (\<lambda>j. next_mat st + j) [0..<?n]"
  let ?A = "map (\<lambda>j. next_vec st + 3 * j) [0..<?n]"
  let ?R = "map (\<lambda>j. next_vec st + 3 * j + 1) [0..<?n]"
  let ?F = "map (\<lambda>j. next_vec st + 3 * j + 2) [0..<?n]"
  have c: "created st ?n ?s" by (rule init_loop_created)
  then have g: "n_group ?s = n_group st" by (simp add: created_def)
  have fail: "initialize_system_matrices_vectors n_dofs sflxes_proc st =
        Inl (ExcMessage ''sflxes_proc has to be initilized in size outside'')"
    if "length sflxes_proc \<noteq> n_group st"
    using that g by (simp add: initialize_system_matrices_vectors_def Let_def)
  have ok: "\<exists>sflxes. initialize_system_matrices_vectors n_dofs sflxes_proc st = Inr (sflxes, ?s)"
    if l: "length sflxes_proc = n_group st"
      and n: "n_group st \<le> length (sys_aflxes st) + n_total_vars st"
  proof -
    from c n g have "n_group ?s \<le> length (sys_aflxes ?s)" by (simp add: created_def)
    from init_sflx_loop [OF this, of sflxes_proc] l g show ?thesis
      by (auto simp: initialize_system_matrices_vectors_def Let_def)
  qed
  from c have ptr: "sys_mats ?s = sys_mats st @ ?M" "sys_aflxes ?s = sys_aflxes st @ ?A"
    "sys_rhses ?s = sys_rhses st @ ?R" "sys_fixed_rhses ?s = sys_fixed_rhses st @ ?F"
    and nxt: "next_mat ?s = next_mat st + ?n" "next_vec ?s = next_vec st + 3 * ?n"
    by (simp_all add: created_def)
  have new_len: "length ?M = ?n" "length ?A = ?n" "length ?R = ?n" "length ?F = ?n"
    by simp_all
  have dm: "distinct ?M" by (simp add: distinct_map inj_on_def)
  have dv: "distinct (?A @ ?R @ ?F)" by (rule new_vectors_distinct)
  have nm: "\<forall>a \<in> set ?M. next_mat st \<le> a \<and> a < next_mat ?s"
    unfolding nxt by auto
  have nv: "\<forall>a \<in> set (?A @ ?R @ ?F). next_vec st \<le> a \<and> a < next_vec ?s"
    unfolding nxt by auto
  have len: "length (sys_mats ?s) = length (sys_mats st) + ?n"
    "length (sys_aflxes ?s) = length (sys_aflxes st) + ?n"
    "length (sys_rhses ?s) = length (sys_rhses st) + ?n"
    "length (sys_fixed_rhses ?s) = length (sys_fixed_rhses st) + ?n"
    unfolding ptr by simp_all
  have fresh: "sys_mats st = [] \<and> sys_aflxes st = [] \<and> sys_rhses st = [] \<and>
      sys_fixed_rhses st = [] \<longrightarrow>
      length (sys_mats ?s) = ?n \<and> length (sys_aflxes ?s) = ?n \<and>
      length (sys_rhses ?s) = ?n \<and> length (sys_fixed_rhses ?s) = ?n \<and>
      (\<forall>k < ?n.
         mat_store ?s (sys_mats ?s ! k) = [] \<and>
         vec_store ?s (sys_aflxes ?s ! k) = replicate n_dofs 0 \<and>
         vec_store ?s (sys_rhses ?s ! k) = replicate n_dofs 0 \<and>
         vec_store ?s (sys_fixed_rhses ?s ! k) = replicate n_dofs 0)"
  proof
    assume e: "sys_mats st = [] \<and> sys_aflxes st = [] \<and> sys_rhses st = [] \<and>
      sys_fixed_rhses st = []"
    from e have e': "sys_mats st = []" "sys_aflxes st = []" "sys_rhses st = []"
      "sys_fixed_rhses st = []" by simp_all
    have p: "sys_mats ?s = ?M" "sys_aflxes ?s = ?A" "sys_rhses ?s = ?R"
      "sys_fixed_rhses ?s = ?F"
      using ptr e' by simp_all
    have "mat_store ?s (sys_mats ?s ! k) = [] \<and>
         vec_store ?s (sys_aflxes ?s ! k) = replicate n_dofs 0 \<and>
         vec_store ?s (sys_rhses ?s ! k) = replicate n_dofs 0 \<and>
         vec_store ?s (sys_fixed_rhses ?s ! k) = replicate n_dofs 0" if "k < ?n" for k
      using init_loop_contents [OF e' that, of n_dofs] that unfolding p by simp
    then have "\<forall>k < ?n.
         mat_store ?s (sys_mats ?s ! k) = [] \<and>
         vec_store ?s (sys_aflxes ?s ! k) = replicate n_dofs 0 \<and>
         vec_store ?s (sys_rhses ?s ! k) = replicate n_dofs 0 \<and>
         vec_store ?s (sys_fixed_rhses ?s ! k) = replicate n_dofs 0" by blast
    moreover have "length (sys_mats ?s) = ?n" "length (sys_aflxes ?s) = ?n"
      "length (sys_rhses ?s) = ?n" "length (sys_fixed_rhses ?s) = ?n"
      unfolding p by simp_all
    ultimately show "length (sys_mats ?s) = ?n \<and> length (sys_aflxes ?s) = ?n \<and>
      length (sys_rhses ?s) = ?n \<and> length (sys_fixed_rhses ?s) = ?n \<and>
      (\<forall>k < ?n.
         mat_store ?s (sys_mats ?s ! k) = [] \<and>
         vec_store ?s (sys_aflxes ?s ! k) = replicate n_dofs 0 \<and>
         vec_store ?s (sys_rhses ?s ! k) = replicate n_dofs 0 \<and>
         vec_store ?s (sys_fixed_rhses ?s ! k) = replicate n_dofs 0)" by blast
  qed
  show ?thesis
  proof (intro conjI impI)
    assume "length sflxes_proc \<noteq> n_group st"
    then show "initialize_system_matrices_vectors n_dofs sflxes_proc st =
        Inl (ExcMessage ''sflxes_proc has to be initilized in size outside'')" by (rule fail)
  next
    assume "length sflxes_proc = n_group st \<and>
       n_group st \<le> length (sys_aflxes st) + n_total_vars st"
    with ok obtain sflxes where
      r: "initialize_system_matrices_vectors n_dofs sflxes_proc st = Inr (sflxes, ?s)" by blast
    show "\<exists>sflxes st' new_mats new_aflxes new_rhses new_fixed_rhses.
         initialize_system_matrices_vectors n_dofs sflxes_proc st = Inr (sflxes, st') \<and>
         sys_mats st' = sys_mats st @ new_mats \<and>
         sys_aflxes st' = sys_aflxes st @ new_aflxes \<and>
         sys_rhses st' = sys_rhses st @ new_rhses \<and>
         sys_fixed_rhses st' = sys_fixed_rhses st @ new_fixed_rhses \<and>
         length new_mats = n_total_vars st \<and>
         length new_aflxes = n_total_vars st \<and>
         length new_rhses = n_total_vars st \<and>
         length new_fixed_rhses = n_total_vars st \<and>
         distinct new_mats \<and>
         distinct (new_aflxes @ new_rhses @ new_fixed_rhses) \<and>
         (\<forall>a \<in> set new_mats. next_mat st \<le> a \<and> a < next_mat st') \<and>
         (\<forall>a \<in> set (new_aflxes @ new_rhses @ new_fixed_rhses).
            next_vec st \<le> a \<and> a < next_vec st') \<and>
         length (sys_mats st') = length (sys_mats st) + n_total_vars st \<and>
         length (sys_aflxes st') = length (sys_aflxes st) + n_total_vars st \<and>
         length (sys_rhses st') = length (sys_rhses st) + n_total_vars st \<and>
         length (sys_fixed_rhses st') = length (sys_fixed_rhses st) + n_total_vars st \<and>
         (sys_mats st = [] \<and> sys_aflxes st = [] \<and> sys_rhses st = [] \<and> sys_fixed_rhses st = [] \<longrightarrow>
            length (sys_mats st') = n_total_vars st \<and>
            length (sys_aflxes st') = n_total_vars st \<and>
            length (sys_rhses st') = n_total_vars st \<and>
            length (sys_fixed_rhses st') = n_total_vars st \<and>
            (\<forall>k < n_total_vars st.
               mat_store st' (sys_mats st' ! k) = [] \<and>
               vec_store st' (sys_aflxes st' ! k) = replicate n_dofs 0 \<and>
               vec_store st' (sys_rhses st' ! k) = replicate n_dofs 0 \<and>
               vec_store st' (sys_fixed_rhses st' ! k) = replicate n_dofs 0))"
      by (intro exI [of _ sflxes] exI [of _ ?s] exI [of _ ?M] exI [of _ ?A] exI [of _ ?R]
          exI [of _ ?F] conjI)
        (rule r ptr new_len dm dv nm nv len fresh)+
  qed
qed

theorem initialize_system_matrices_vectors_sizes_witness:
  "initialize_system_matrices_vectors 2 [[]] fresh_problem =
     Inl (ExcMessage ''sflxes_proc has to be initilized in size outside'') \<and>
   (\<exists>sflxes st'. initialize_system_matrices_vectors 2 [[], []] fresh_problem = Inr (sflxes, st') \<and>
      length (sys_mats st') = 4 \<and> length (sys_aflxes st') = 4 \<and>
      length (sys_rhses st') = 4 \<and> length (sys_fixed_rhses st') = 4 \<and>
      distinct (sys_mats st') \<and>
      distinct (sys_aflxes st' @ sys_rhses st' @ sys_fixed_rhses st') \<and>
      mat_store st' (sys_mats st' ! 0) = [] \<and>
      vec_store st' (sys_aflxes st' ! 1) = [0, 0] \<and>
      vec_store st' (sys_rhses st' ! 2) = [0, 0] \<and>
      vec_store st' (sys_fixed_rhses st' ! 3) = [0, 0])"
proof -
  have f: "sys_mats fresh_problem = [] \<and> sys_aflxes fresh_problem = [] \<and>
      sys_rhses fresh_problem = [] \<and> sys_fixed_rhses fresh_problem = []"
    by (simp add: fresh_problem_def)
  have n: "n_group fresh_problem = 2" "n_total_vars fresh_problem = 4"
    by (simp_all add: fresh_problem_def small_problem_def)
  have bad: "length [[] :: vec] \<noteq> n_group fresh_problem" using n by simp
  have good: "length [[], [] :: vec] = n_group fresh_problem \<and>
      n_group fresh_problem \<le> length (sys_aflxes fresh_problem) + n_total_vars fresh_problem"
    using n f by simp
  have two: "replicate 2 (0 :: real) = [0, 0]" by (simp add: numeral_2_eq_2)
  from initialize_system_matrices_vectors_sizes [of "[[]]" fresh_problem 2] bad
  have 1: "initialize_system_matrices_vectors 2 [[]] fresh_problem =
     Inl (ExcMessage ''sflxes_proc has to be initilized in size outside'')" by blast
  from initialize_system_matrices_vectors_sizes [of "[[], []]" fresh_problem 2] good
  obtain sflxes st' new_mats new_aflxes new_rhses new_fixed_rhses where
    r: "initialize_system_matrices_vectors 2 [[], []] fresh_problem = Inr (sflxes, st')"
    and p: "sys_mats st' = sys_mats fresh_problem @ new_mats"
      "sys_aflxes st' = sys_aflxes fresh_problem @ new_aflxes"
      "sys_rhses st' = sys_rhses fresh_problem @ new_rhses"
      "sys_fixed_rhses st' = sys_fixed_rhses fresh_problem @ new_fixed_rhses"
    and d: "distinct new_mats" "distinct (new_aflxes @ new_rhses @ new_fixed_rhses)"
    and e: "sys_mats fresh_problem = [] \<and> sys_aflxes fresh_problem = [] \<and>
      sys_rhses fresh_problem = [] \<and> sys_fixed_rhses fresh_problem = [] \<longrightarrow>
            length (sys_mats st') = n_total_vars fresh_problem \<and>
            length (sys_aflxes st') = n_total_vars fresh_problem \<and>
            length (sys_rhses st') = n_total_vars fresh_problem \<and>
            length (sys_fixed_rhses st') = n_total_vars fresh_problem \<and>
            (\<forall>k < n_total_vars fresh_problem.
               mat_store st' (sys_mats st' ! k) = [] \<and>
               vec_store st' (sys_aflxes st' ! k) = replicate 2 0 \<and>
               vec_store st' (sys_rhses st' ! k) = replicate 2 0 \<and>
               vec_store st' (sys_fixed_rhses st' ! k) = replicate 2 0)"
    by blast
  from e f n two have l: "length (sys_mats st') = 4" "length (sys_aflxes st') = 4"
      "length (sys_rhses st') = 4" "length (sys_fixed_rhses st') = 4"
    and k: "\<forall>k < 4. mat_store st' (sys_mats st' ! k) = [] \<and>
               vec_store st' (sys_aflxes st' ! k) = [0, 0] \<and>
               vec_store st' (sys_rhses st' ! k) = [0, 0] \<and>
               vec_store st' (sys_fixed_rhses st' ! k) = [0, 0]"
    by simp_all
  from p d f have dd: "distinct (sys_mats st')"
    "distinct (sys_aflxes st' @ sys_rhses st' @ sys_fixed_rhses st')" by simp_all
  from k have c: "mat_store st' (sys_mats st' ! 0) = []"
      "vec_store st' (sys_aflxes st' ! 1) = [0, 0]"
      "vec_store st' (sys_rhses st' ! 2) = [0, 0]"
      "vec_store st' (sys_fixed_rhses st' ! 3) = [0, 0]"
    by simp_all
  from r l dd c have 2: "\<exists>sflxes st'. initialize_system_matrices_vectors 2 [[], []] fresh_problem =
      Inr (sflxes, st') \<and>
      length (sys_mats st') = 4 \<and> length (sys_aflxes st') = 4 \<and>
      length (sys_rhses st') = 4 \<and> length (sys_fixed_rhses st') = 4 \<and>
      distinct (sys_mats st') \<and>
      distinct (sys_aflxes st' @ sys_rhses st' @ sys_fixed_rhses st') \<and>
      mat_store st' (sys_mats st' ! 0) = [] \<and>
      vec_store st' (sys_aflxes st' ! 1) = [0, 0] \<and>
      vec_store st' (sys_rhses st' ! 2) = [0, 0] \<and>
      vec_store st' (sys_fixed_rhses st' ! 3) = [0, 0]"
    by blast
  from 1 2 show ?thesis by blast
qed
subsection \<open>The frame of the linear form\<close>

lemma linear_cell_step:
  assumes "linear_cell hooks sf k g d ic (st\<lparr>vec_store := X\<rparr>) = Inr t"
  shows "\<exists>v. cell_contribution hooks sf g d st ic (X (sys_rhses st ! k)) = Inr v \<and>
           t = st\<lparr>vec_store := X(sys_rhses st ! k := v)\<rparr>"
  using assms
  by (auto simp: linear_cell_def cell_contribution_def cell_linear_form_def Let_def
      split: if_splits sum.splits)

lemma linear_cell_loop:
  assumes "fold_err (linear_cell hooks sf k g d) [0..<n] (st\<lparr>vec_store := X\<rparr>) = Inr t"
  shows "\<exists>v. fold_err (cell_contribution hooks sf g d st) [0..<n] (X (sys_rhses st ! k)) = Inr v \<and>
           t = st\<lparr>vec_store := X(sys_rhses st ! k := v)\<rparr>"
proof -
  let ?a = "sys_rhses st ! k"
  let ?I = "\<lambda>i t. \<exists>v. fold_err (cell_contribution hooks sf g d st) [0..<i] (X ?a) = Inr v \<and>
                  t = st\<lparr>vec_store := X(?a := v)\<rparr>"
  show ?thesis
  proof (rule fold_err_upt_rule [of _ _ _ _ ?I, OF assms])
    show "?I 0 (st\<lparr>vec_store := X\<rparr>)" by simp
  next
    fix i u u' assume "i < n" and u: "?I i u" and s: "linear_cell hooks sf k g d i u = Inr u'"
    from u obtain v where v: "fold_err (cell_contribution hooks sf g d st) [0..<i] (X ?a) = Inr v"
      "u = st\<lparr>vec_store := X(?a := v)\<rparr>" by blast
    from s v(2) have "linear_cell hooks sf k g d i (st\<lparr>vec_store := X(?a := v)\<rparr>) = Inr u'"
      by simp
    from linear_cell_step [OF this]
    obtain v' where "cell_contribution hooks sf g d st i v = Inr v'"
      "u' = st\<lparr>vec_store := X(?a := v')\<rparr>" by auto
    with v(1) show "?I (Suc i) u'" by (simp add: fold_err_append)
  qed
qed

lemma linear_component_step:
  assumes "linear_component hooks sf g k (st\<lparr>vec_store := X\<rparr>) = Inr t"
  shows "if get_component_group st k = g
         then k < length (sys_rhses st) \<and> k < length (sys_fixed_rhses st) \<and>
              (\<exists>v. fold_err (cell_contribution hooks sf g (get_component_direction st k) st)
                     [0..<length (local_cells st)] (X (sys_fixed_rhses st ! k)) = Inr v \<and>
                   t = st\<lparr>vec_store := X(sys_rhses st ! k := v)\<rparr>)
         else t = st\<lparr>vec_store := X\<rparr>"
proof (cases "get_component_group st k = g")
  case False
  with assms show ?thesis
    by (simp add: linear_component_def get_component_group_def)
next
  case True
  let ?a = "sys_rhses st ! k"
  let ?X = "X(?a := X (sys_fixed_rhses st ! k))"
  from True assms have rng: "k < length (sys_rhses st)" "k < length (sys_fixed_rhses st)"
    by (auto simp: linear_component_def get_component_group_def split: if_splits)
  with True assms have "fold_err (linear_cell hooks sf k g (get_component_direction st k))
      [0..<length (local_cells st)] (st\<lparr>vec_store := ?X\<rparr>) = Inr t"
    by (simp add: linear_component_def get_component_group_def get_component_direction_def
        Let_def)
  from linear_cell_loop [OF this] True rng show ?thesis by auto
qed

text \<open>
  The loop over the components: every component of the group is rebuilt from its fixed
  right-hand side by the loop over the cells, and nothing else is written.
\<close>

lemma assemble_linear_form_loop:
  assumes res: "assemble_linear_form hooks sflxes_proc g st = Inr st'"
    and dist: "distinct (sys_rhses st)"
    and disj: "set (sys_rhses st) \<inter> set (sys_fixed_rhses st) = {}"
  shows "(\<forall>k < n_total_vars st. get_component_group st k = g \<longrightarrow>
            k < length (sys_rhses st) \<and>
            rhs_of_component hooks sflxes_proc g st k = Inr (vec_store st' (sys_rhses st ! k))) \<and>
         (\<forall>k < length (sys_rhses st). get_component_group st k \<noteq> g \<longrightarrow>
            vec_store st' (sys_rhses st ! k) = vec_store st (sys_rhses st ! k)) \<and>
         (\<forall>k < length (sys_fixed_rhses st).
            vec_store st' (sys_fixed_rhses st ! k) = vec_store st (sys_fixed_rhses st ! k)) \<and>
         mat_store st' = mat_store st \<and> sys_mats st' = sys_mats st \<and>
         sys_rhses st' = sys_rhses st \<and> sys_fixed_rhses st' = sys_fixed_rhses st"
proof -
  let ?touched = "\<lambda>i. {sys_rhses st ! k | k. k < i \<and> k < length (sys_rhses st) \<and>
                          get_component_group st k = g}"
  let ?I = "\<lambda>i t. \<exists>X. t = st\<lparr>vec_store := X\<rparr> \<and>
              (\<forall>a. a \<notin> ?touched i \<longrightarrow> X a = vec_store st a) \<and>
              (\<forall>k < i. get_component_group st k = g \<longrightarrow>
                 k < length (sys_rhses st) \<and>
                 rhs_of_component hooks sflxes_proc g st k = Inr (X (sys_rhses st ! k)))"
  have fixed_untouched: "sys_fixed_rhses st ! k \<notin> ?touched i"
    if "k < length (sys_fixed_rhses st)" for k i
  proof
    assume "sys_fixed_rhses st ! k \<in> ?touched i"
    then obtain j where "j < length (sys_rhses st)" "sys_fixed_rhses st ! k = sys_rhses st ! j"
      by auto
    then have "sys_fixed_rhses st ! k \<in> set (sys_rhses st)" by simp
    moreover from that have "sys_fixed_rhses st ! k \<in> set (sys_fixed_rhses st)" by simp
    ultimately show False using disj by blast
  qed
  have "?I (n_total_vars st) st'"
  proof (rule fold_err_upt_rule [of _ _ _ _ ?I,
        OF res [unfolded assemble_linear_form_def]])
    have "st = st\<lparr>vec_store := vec_store st\<rparr>" by simp
    then show "?I 0 st" by blast
  next
    fix i t t'
    assume i: "i < n_total_vars st" and t: "?I i t"
      and step: "linear_component hooks sflxes_proc g i t = Inr t'"
    from t obtain X where X: "t = st\<lparr>vec_store := X\<rparr>"
      "\<forall>a. a \<notin> ?touched i \<longrightarrow> X a = vec_store st a"
      "\<forall>k < i. get_component_group st k = g \<longrightarrow>
          k < length (sys_rhses st) \<and>
          rhs_of_component hooks sflxes_proc g st k = Inr (X (sys_rhses st ! k))"
      by blast
    from step X(1)
    have s: "linear_component hooks sflxes_proc g i (st\<lparr>vec_store := X\<rparr>) = Inr t'" by simp
    show "?I (Suc i) t'"
    proof (cases "get_component_group st i = g")
      case False
      with linear_component_step [OF s] have t': "t' = st\<lparr>vec_store := X\<rparr>" by simp
      have "?touched (Suc i) = ?touched i"
        using False by (auto simp: less_Suc_eq)
      with X(2,3) False t' show ?thesis
        by (intro exI [of _ X]) (auto simp: less_Suc_eq)
    next
      case True
      with linear_component_step [OF s]
      obtain v where rng: "i < length (sys_rhses st)" "i < length (sys_fixed_rhses st)"
        and v: "fold_err (cell_contribution hooks sflxes_proc g (get_component_direction st i) st)
                  [0..<length (local_cells st)] (X (sys_fixed_rhses st ! i)) = Inr v"
        and t': "t' = st\<lparr>vec_store := X(sys_rhses st ! i := v)\<rparr>"
        by auto
      from X(2) fixed_untouched [OF rng(2), of i]
      have "X (sys_fixed_rhses st ! i) = vec_store st (sys_fixed_rhses st ! i)" by blast
      with v have rhs_i: "rhs_of_component hooks sflxes_proc g st i = Inr v"
        by (simp add: rhs_of_component_def)
      let ?X = "X(sys_rhses st ! i := v)"
      have a: "\<forall>a. a \<notin> ?touched (Suc i) \<longrightarrow> ?X a = vec_store st a"
      proof (intro allI impI)
        fix a assume na: "a \<notin> ?touched (Suc i)"
        with True rng(1) have "a \<noteq> sys_rhses st ! i" by auto
        moreover from na have "a \<notin> ?touched i" by (auto simp: less_Suc_eq)
        ultimately show "?X a = vec_store st a" using X(2) by simp
      qed
      have b: "\<forall>k < Suc i. get_component_group st k = g \<longrightarrow>
          k < length (sys_rhses st) \<and>
          rhs_of_component hooks sflxes_proc g st k = Inr (?X (sys_rhses st ! k))"
      proof (intro allI impI)
        fix k assume k: "k < Suc i" and gk: "get_component_group st k = g"
        show "k < length (sys_rhses st) \<and>
          rhs_of_component hooks sflxes_proc g st k = Inr (?X (sys_rhses st ! k))"
        proof (cases "k = i")
          case True
          with rng(1) rhs_i show ?thesis by simp
        next
          case False
          with k have ki: "k < i" by simp
          with X(3) gk have kl: "k < length (sys_rhses st)"
            and r: "rhs_of_component hooks sflxes_proc g st k = Inr (X (sys_rhses st ! k))"
            by auto
          from dist kl rng(1) False have "sys_rhses st ! k \<noteq> sys_rhses st ! i"
            by (simp add: nth_eq_iff_index_eq)
          with kl r show ?thesis by simp
        qed
      qed
      from t' a b show ?thesis by blast
    qed
  qed
  then obtain X where X: "st' = st\<lparr>vec_store := X\<rparr>"
    "\<forall>a. a \<notin> ?touched (n_total_vars st) \<longrightarrow> X a = vec_store st a"
    "\<forall>k < n_total_vars st. get_component_group st k = g \<longrightarrow>
        k < length (sys_rhses st) \<and>
        rhs_of_component hooks sflxes_proc g st k = Inr (X (sys_rhses st ! k))"
    by blast
  have other: "vec_store st' (sys_rhses st ! k) = vec_store st (sys_rhses st ! k)"
    if k: "k < length (sys_rhses st)" and gk: "get_component_group st k \<noteq> g" for k
  proof -
    have "sys_rhses st ! k \<notin> ?touched (n_total_vars st)"
    proof
      assume "sys_rhses st ! k \<in> ?touched (n_total_vars st)"
      then obtain j where j: "j < length (sys_rhses st)" "get_component_group st j = g"
        "sys_rhses st ! k = sys_rhses st ! j" by auto
      with dist k have "k = j" by (simp add: nth_eq_iff_index_eq)
      with j(2) gk show False by simp
    qed
    with X(1,2) show ?thesis by simp
  qed
  have fixed: "vec_store st' (sys_fixed_rhses st ! k) = vec_store st (sys_fixed_rhses st ! k)"
    if "k < length (sys_fixed_rhses st)" for k
    using fixed_untouched [OF that, of "n_total_vars st"] X(1,2) by simp
  from X(1,3) other fixed show ?thesis by simp
qed

text \<open>
  What \<^verbatim>\<open>add\<close> does to each entry of the vector, and the linear form of a cell as the
  scattering source followed by the boundary terms.
\<close>

lemma fold_add_entries:
  "length (fold (\<lambda>p v. v[fst p := v ! fst p + snd p]) ps v) = length v \<and>
   (\<forall>j < length v.
      fold (\<lambda>p v. v[fst p := v ! fst p + snd p]) ps v ! j =
        v ! j + sum_list (map snd (filter (\<lambda>p. fst p = j) ps)))"
  for v :: vec
proof (induction ps arbitrary: v)
  case Nil
  show ?case by simp
next
  case (Cons p ps)
  let ?w = "v[fst p := v ! fst p + snd p]"
  have l: "length ?w = length v" by simp
  have e: "?w ! j = (if fst p = j then v ! j + snd p else v ! j)" if "j < length v" for j
    using that by (cases "fst p = j") simp_all
  from Cons.IH [of ?w] l e show ?case by (simp add: algebra_simps)
qed

lemma add_values_entries:
  assumes "add_values indices values v = Inr w"
  shows "length w = length v \<and> (\<forall>j < length v. w ! j = v ! j + added_at indices values j)"
proof -
  from assms
  have "w = fold (\<lambda>p v. v[fst p := v ! fst p + snd p]) (zip indices values) v"
    by (simp add: add_values_def split: if_splits)
  with fold_add_entries [of "zip indices values" v] show ?thesis
    by (simp add: added_at_def)
qed

lemma fold_boundary_faces:
  "fold (\<lambda>fn r. if P fn then F fn r else r) fns r = foldl (\<lambda>r fn. F fn r) r (filter P fns)"
  by (induction fns arbitrary: r) simp_all

lemma cell_linear_form_scattering_and_boundary:
  "cell_linear_form hooks sflxes_proc g i_dir st ic =
     scattering_and_boundary hooks sflxes_proc g i_dir st ic"
  by (simp add: cell_linear_form_def scattering_and_boundary_def boundary_linear_form_def
      boundary_faces_def fold_boundary_faces Let_def)

lemma rhs_of_component_entries:
  assumes "rhs_of_component hooks sflxes_proc g st k = Inr w"
  shows "length w = length (vec_store st (sys_fixed_rhses st ! k)) \<and>
         (\<forall>j < length (vec_store st (sys_fixed_rhses st ! k)).
            w ! j = vec_store st (sys_fixed_rhses st ! k) ! j +
                    rhs_increment hooks sflxes_proc g (get_component_direction st k) st j)"
proof -
  let ?f = "vec_store st (sys_fixed_rhses st ! k)"
  let ?d = "get_component_direction st k"
  let ?c = "\<lambda>ic j. added_at (get_dof_indices st (cell_id (local_cells st ! ic)))
                      (scattering_and_boundary hooks sflxes_proc g ?d st ic) j"
  let ?I = "\<lambda>i w. length w = length ?f \<and>
              (\<forall>j < length ?f. w ! j = ?f ! j + sum_list (map (\<lambda>ic. ?c ic j) [0..<i]))"
  have "?I (length (local_cells st)) w"
  proof (rule fold_err_upt_rule [of _ _ _ _ ?I, OF assms [unfolded rhs_of_component_def]])
    show "?I 0 ?f" by simp
  next
    fix i u u'
    assume "i < length (local_cells st)" and u: "?I i u"
      and s: "cell_contribution hooks sflxes_proc g ?d st i u = Inr u'"
    from s have "add_values (get_dof_indices st (cell_id (local_cells st ! i)))
        (scattering_and_boundary hooks sflxes_proc g ?d st i) u = Inr u'"
      by (simp add: cell_contribution_def cell_linear_form_scattering_and_boundary)
    from add_values_entries [OF this]
    have l: "length u' = length u" and e: "\<forall>j < length u. u' ! j = u ! j + ?c i j"
      by simp_all
    from u l have "length u' = length ?f" by simp
    moreover have "u' ! j = ?f ! j + sum_list (map (\<lambda>ic. ?c ic j) [0..<Suc i])"
      if "j < length ?f" for j
    proof -
      from that u have "j < length u" "u ! j = ?f ! j + sum_list (map (\<lambda>ic. ?c ic j) [0..<i])"
        by simp_all
      with e show ?thesis by simp
    qed
    ultimately show "?I (Suc i) u'" by blast
  qed
  then show ?thesis by (simp add: rhs_increment_def)
qed

text \<open>
  Claim C8. Let \<^verbatim>\<open>assemble_linear_form\<close> for group \<open>g\<close> return, the pointers in
  \<^verbatim>\<open>sys_rhses\<close> being pairwise distinct and distinct from those in
  \<^verbatim>\<open>sys_fixed_rhses\<close>, as \<^verbatim>\<open>initialize_system_matrices_vectors\<close> creates them.
  Then for every component \<open>k\<close> of group \<open>g\<close> the right-hand side has the size of the
  fixed right-hand side of \<open>k\<close>, and each of its entries is the entry of the fixed
  right-hand side plus the sum, over the local cells, of what the linear form of the
  cell (scattering source, then the boundary terms of a cell at the boundary) adds at
  that entry through the degrees of freedom of the cell: whatever the right-hand side
  held before is gone. The right-hand side of a component of another group, every fixed
  right-hand side and every system matrix are unchanged.
\<close>

theorem assemble_linear_form_frame:
  assumes res: "assemble_linear_form hooks sflxes_proc g st = Inr st'"
    and dist: "distinct (sys_rhses st)"
    and disj: "set (sys_rhses st) \<inter> set (sys_fixed_rhses st) = {}"
  shows "(\<forall>k < n_total_vars st. get_component_group st k = g \<longrightarrow>
            k < length (sys_rhses st) \<and>
            length (vec_store st' (sys_rhses st ! k)) =
              length (vec_store st (sys_fixed_rhses st ! k)) \<and>
            (\<forall>j < length (vec_store st (sys_fixed_rhses st ! k)).
               vec_store st' (sys_rhses st ! k) ! j =
                 vec_store st (sys_fixed_rhses st ! k) ! j +
                 rhs_increment hooks sflxes_proc g (get_component_direction st k) st j)) \<and>
         (\<forall>k < length (sys_rhses st). get_component_group st k \<noteq> g \<longrightarrow>
            vec_store st' (sys_rhses st ! k) = vec_store st (sys_rhses st ! k)) \<and>
         (\<forall>k < length (sys_fixed_rhses st).
            vec_store st' (sys_fixed_rhses st ! k) = vec_store st (sys_fixed_rhses st ! k)) \<and>
         mat_store st' = mat_store st \<and> sys_mats st' = sys_mats st \<and>
         sys_rhses st' = sys_rhses st \<and> sys_fixed_rhses st' = sys_fixed_rhses st"
proof -
  note L = assemble_linear_form_loop [OF res dist disj]
  have 1: "k < length (sys_rhses st) \<and>
      length (vec_store st' (sys_rhses st ! k)) =
        length (vec_store st (sys_fixed_rhses st ! k)) \<and>
      (\<forall>j < length (vec_store st (sys_fixed_rhses st ! k)).
         vec_store st' (sys_rhses st ! k) ! j =
           vec_store st (sys_fixed_rhses st ! k) ! j +
           rhs_increment hooks sflxes_proc g (get_component_direction st k) st j)"
    if k: "k < n_total_vars st" and gk: "get_component_group st k = g" for k
  proof -
    from L k gk have kl: "k < length (sys_rhses st)"
      and r: "rhs_of_component hooks sflxes_proc g st k =
                Inr (vec_store st' (sys_rhses st ! k))"
      by blast+
    from kl rhs_of_component_entries [OF r] show ?thesis by blast
  qed
  from L have 2: "\<forall>k < length (sys_rhses st). get_component_group st k \<noteq> g \<longrightarrow>
            vec_store st' (sys_rhses st ! k) = vec_store st (sys_rhses st ! k)"
    and 3: "\<forall>k < length (sys_fixed_rhses st).
            vec_store st' (sys_fixed_rhses st ! k) = vec_store st (sys_fixed_rhses st ! k)"
    and 4: "mat_store st' = mat_store st" "sys_mats st' = sys_mats st"
      "sys_rhses st' = sys_rhses st" "sys_fixed_rhses st' = sys_fixed_rhses st"
    by blast+
  from 1 2 3 4 show ?thesis by blast
qed

lemma tracing_integrators_fields [simp]:
  "integrate_boundary_linear_form tracing_integrators =
     (\<lambda>cell fn cell_rhs g i_dir. map (\<lambda>x. 2 * x + real fn) cell_rhs)"
  "integrate_scattering_linear_form tracing_integrators =
     (\<lambda>cell cell_rhs sflx_proc g i_dir.
        map (\<lambda>x. x + sflx_proc ! g ! cell_id cell + real i_dir) cell_rhs)"
  by (simp_all add: tracing_integrators_def)

lemma small_problem_tracing:
  "scattering_and_boundary tracing_integrators [[5, 7], [1, 1]] 0 0
     (small_problem\<lparr>vec_store := X\<rparr>) 0 = [47]"
  "scattering_and_boundary tracing_integrators [[5, 7], [1, 1]] 0 0
     (small_problem\<lparr>vec_store := X\<rparr>) (Suc 0) = [67]"
  "scattering_and_boundary tracing_integrators [[5, 7], [1, 1]] 0 (Suc 0)
     (small_problem\<lparr>vec_store := X\<rparr>) 0 = [55]"
  "scattering_and_boundary tracing_integrators [[5, 7], [1, 1]] 0 (Suc 0)
     (small_problem\<lparr>vec_store := X\<rparr>) (Suc 0) = [75]"
  "scattering_and_boundary tracing_integrators [[5, 7], [1, 1]] 0 0 small_problem 0 = [47]"
  "scattering_and_boundary tracing_integrators [[5, 7], [1, 1]] 0 0 small_problem (Suc 0) =
     [67]"
  by (simp_all add: scattering_and_boundary_def boundary_faces_def upt_4 two_cells_def
      left_cell_def right_cell_def Let_def)

lemma small_problem_linear_form:
  "\<exists>st'. assemble_linear_form tracing_integrators [[5, 7], [1, 1]] 0 small_problem =
     Inr st'"
  by (simp add: assemble_linear_form_def upt_4 upt_2 linear_component_def
      linear_cell_def add_values_def two_cells_def left_cell_def right_cell_def
      cell_linear_form_scattering_and_boundary small_problem_tracing Let_def)

lemma small_problem_increment:
  "rhs_increment tracing_integrators [[5, 7], [1, 1]] 0 0 small_problem 0 = 47"
  "rhs_increment tracing_integrators [[5, 7], [1, 1]] 0 0 small_problem (Suc 0) = 67"
  by (simp_all add: rhs_increment_def added_at_def upt_2 small_problem_tracing
      two_cells_def left_cell_def right_cell_def)

theorem assemble_linear_form_frame_witness:
  "\<exists>st'. assemble_linear_form tracing_integrators [[5, 7], [1, 1]] 0 small_problem =
     Inr st' \<and>
     vec_store st' 4 = [55, 69] \<and> vec_store st' 6 = [6, 2] \<and> vec_store st' 8 = [8, 2] \<and>
     mat_store st' = mat_store small_problem"
proof -
  let ?h = tracing_integrators
  let ?sf = "[[5, 7], [1, 1 :: real]]"
  from small_problem_linear_form obtain st'
    where r: "assemble_linear_form ?h ?sf 0 small_problem = Inr st'" by blast
  have d: "distinct (sys_rhses small_problem)" by simp
  have j: "set (sys_rhses small_problem) \<inter> set (sys_fixed_rhses small_problem) = {}"
    by simp
  note T = assemble_linear_form_frame [OF r d j]
  from T have "0 < n_total_vars small_problem \<longrightarrow> get_component_group small_problem 0 = 0 \<longrightarrow>
      length (vec_store st' (sys_rhses small_problem ! 0)) =
        length (vec_store small_problem (sys_fixed_rhses small_problem ! 0)) \<and>
      (\<forall>j < length (vec_store small_problem (sys_fixed_rhses small_problem ! 0)).
         vec_store st' (sys_rhses small_problem ! 0) ! j =
           vec_store small_problem (sys_fixed_rhses small_problem ! 0) ! j +
           rhs_increment ?h ?sf 0 (get_component_direction small_problem 0) small_problem j)"
    by blast
  then have "length (vec_store st' 4) = 2 \<and> vec_store st' 4 ! 0 = 55 \<and>
      vec_store st' 4 ! 1 = 69"
    by (simp add: all_less_2 small_problem_increment)
  then have a: "vec_store st' 4 = [55, 69]"
    by (cases "vec_store st' 4" rule: list.exhaust; simp)
      (metis One_nat_def length_0_conv length_Suc_conv list.sel(3) nth_Cons_0 nth_Cons_Suc
        numeral_2_eq_2 list.inject)
  from T have "2 < length (sys_rhses small_problem) \<longrightarrow>
      get_component_group small_problem 2 \<noteq> 0 \<longrightarrow>
      vec_store st' (sys_rhses small_problem ! 2) =
      vec_store small_problem (sys_rhses small_problem ! 2)" by blast
  then have b: "vec_store st' 6 = [6, 2]" by simp
  from T have "0 < length (sys_fixed_rhses small_problem) \<longrightarrow>
      vec_store st' (sys_fixed_rhses small_problem ! 0) =
      vec_store small_problem (sys_fixed_rhses small_problem ! 0)" by blast
  then have c: "vec_store st' 8 = [8, 2]" by simp
  from T have "mat_store st' = mat_store small_problem" by blast
  with r a b c show ?thesis by blast
qed
end
